theory Spec2Isabelle
  imports Complex_Main
begin

section \<open>ComponentClip.js: the data model\<close>

text \<open>
  The source is \<^verbatim>\<open>src/clip/ComponentClip.js\<close>. Every child of a clip is an object
  created by the host engine; the clip, its state manager and the caller all hold
  references to the same objects. The model therefore keeps the objects in a store,
  a list indexed by address, and the dictionaries of the source hold addresses.
  A fresh object is appended to the store, so its address is the length of the store
  before the allocation.

  Numbers of the config are modelled as reals: the source only copies them and tests
  them for truthiness with \<^verbatim>\<open>||\<close>, and a config, being parsed JSON, holds no
  \<^verbatim>\<open>NaN\<close>. An optional property is an \<open>option\<close>.
  Dictionaries that the source only reads by key are maps; the objects the source
  enumerates (\<^verbatim>\<open>config.states\<close>, a state's config) are association lists in
  enumeration order. Property names are taken not to collide with members of
  \<^verbatim>\<open>Object.prototype\<close>.
\<close>

datatype error = TypeError

text \<open>The fields of a game object that the source reads or writes.\<close>

record GameObject =
  obj_x :: real
  obj_y :: real
  obj_scaleX :: real
  obj_scaleY :: real
  obj_angle :: real
  obj_alpha :: real
  obj_visible :: bool
  obj_mask :: "nat option"

type_synonym heap = "GameObject list"

text \<open>The typedef \<^verbatim>\<open>StateConfig\<close> of the source: six optional numbers.\<close>

record StateConfig =
  cfg_x :: "real option"
  cfg_y :: "real option"
  cfg_scaleX :: "real option"
  cfg_scaleY :: "real option"
  cfg_angle :: "real option"
  cfg_alpha :: "real option"

datatype TextStyle = TextStyle (align: "string option")

text \<open>
  The typedef \<^verbatim>\<open>ComponentConfig\<close>. \<open>params\<close> holds the config's own
  \<^verbatim>\<open>x, y, scaleX, scaleY, angle, alpha\<close>; \<open>children\<close> is empty when the property is
  absent (the source then skips its loop); \<open>states\<close> maps a state id to that state's
  config, itself a mapping from child id to \<open>StateConfig\<close>.
\<close>

datatype ComponentConfig = ComponentConfig
  (ctype: string)
  (childId: string)
  (key: "string option")
  (params: StateConfig)
  (children: "ComponentConfig list")
  (states: "(string \<times> (string \<times> StateConfig) list) list")
  (masking: "string list option")
  (vertices: "real list option")
  (textStyle: "TextStyle option")

record State =
  config :: "(string \<times> StateConfig) list"
  componentIds :: "string list"

record StateManager =
  dynamicChildrenIds :: "string list"
  sm_states :: "string \<rightharpoonup> State"
  stateIds :: "string list"
  components :: "string \<rightharpoonup> nat"
  currentState :: "State option"
  currentStateId :: "string option"
  componentKeys :: "string \<rightharpoonup> string"
  residentComponentsByKey :: "string \<rightharpoonup> nat"

record ComponentClip =
  self :: nat
  childComponentClips :: "nat list"
  clip_key :: "string option"
  stateManager :: StateManager
  childrenById :: "string \<rightharpoonup> nat"
  displayList :: "nat list"

definition TYPE_IMAGE :: string where "TYPE_IMAGE = ''image''"
definition TYPE_COMPONENT :: string where "TYPE_COMPONENT = ''component''"
definition TYPE_TEXT :: string where "TYPE_TEXT = ''text''"
definition TYPE_TILE_SPRITE :: string where "TYPE_TILE_SPRITE = ''tileSprite''"
definition TYPE_POLYGON :: string where "TYPE_POLYGON = ''polygon''"
definition TYPE_ZONE :: string where "TYPE_ZONE = ''zone''"

section \<open>The store\<close>

text \<open>
  An object as the engine's factories return it, placed at \<open>(x, y)\<close>: unscaled,
  unrotated, opaque, visible and unmasked.
\<close>

definition newGameObject :: "real \<Rightarrow> real \<Rightarrow> GameObject" where
  "newGameObject px py =
     \<lparr>obj_x = px, obj_y = py, obj_scaleX = 1, obj_scaleY = 1, obj_angle = 0,
      obj_alpha = 1, obj_visible = True, obj_mask = None\<rparr>"

definition alloc :: "heap \<Rightarrow> GameObject \<Rightarrow> heap \<times> nat" where
  "alloc h ob = (h @ [ob], length h)"

text \<open>A write through a reference: the object at address \<open>a\<close> is replaced by \<open>f\<close> of it.\<close>

definition modify :: "heap \<Rightarrow> nat \<Rightarrow> (GameObject \<Rightarrow> GameObject) \<Rightarrow> heap" where
  "modify h a f = h[a := f (h ! a)]"

section \<open>Common params\<close>

text \<open>
  \<^verbatim>\<open>v || d\<close> on an optional number: the default is taken when the property is absent
  and also when its value is falsy, which for a number means zero.
\<close>

definition or_default :: "real option \<Rightarrow> real \<Rightarrow> real" where
  "or_default v d = (case v of None \<Rightarrow> d | Some n \<Rightarrow> if n = 0 then d else n)"

text \<open>\<^verbatim>\<open>config.hasOwnProperty("alpha") ? config.alpha : 1\<close>\<close>

definition own_or :: "real option \<Rightarrow> real \<Rightarrow> real" where
  "own_or v d = (case v of None \<Rightarrow> d | Some n \<Rightarrow> n)"

definition setupCommonParams :: "GameObject \<Rightarrow> StateConfig \<Rightarrow> GameObject" where
  "setupCommonParams component p =
     (let x = or_default (cfg_x p) 0;
          y = or_default (cfg_y p) 0;
          scaleX = or_default (cfg_scaleX p) 1;
          scaleY = or_default (cfg_scaleY p) 1;
          angle = or_default (cfg_angle p) 0;
          alpha = own_or (cfg_alpha p) 1
      in component\<lparr>obj_x := x, obj_y := y, obj_scaleX := scaleX, obj_scaleY := scaleY,
                   obj_angle := angle, obj_alpha := alpha\<rparr>)"

section \<open>State and StateManager\<close>

text \<open>\<^verbatim>\<open>Object.keys(config)\<close>\<close>

definition State_new :: "(string \<times> StateConfig) list \<Rightarrow> State" where
  "State_new sc = \<lparr>config = sc, componentIds = map fst sc\<rparr>"

text \<open>
  The three list functions of the underscore library that the source calls, on lists of
  strings: \<open>flatten\<close> concatenates, \<open>uniq\<close> keeps each value where it is first met,
  \<open>difference\<close> keeps the values of the first list that the second lacks.
\<close>

definition flatten :: "'a list list \<Rightarrow> 'a list" where
  "flatten xss = concat xss"

fun uniq_loop :: "'a list \<Rightarrow> 'a list \<Rightarrow> 'a list" where
  "uniq_loop result [] = result"
| "uniq_loop result (v # vs) =
     uniq_loop (if v \<in> set result then result else result @ [v]) vs"

definition uniq :: "'a list \<Rightarrow> 'a list" where
  "uniq xs = uniq_loop [] xs"

definition difference :: "'a list \<Rightarrow> 'a list \<Rightarrow> 'a list" where
  "difference xs ys = filter (\<lambda>v. v \<notin> set ys) xs"

text \<open>The loop of the constructor over \<^verbatim>\<open>config.states\<close>.\<close>

fun states_loop ::
  "(string \<times> (string \<times> StateConfig) list) list \<Rightarrow> StateManager \<Rightarrow> string list list
     \<Rightarrow> StateManager \<times> string list list" where
  "states_loop [] sm idsArrays = (sm, idsArrays)"
| "states_loop ((stateId, sc) # rest) sm idsArrays =
     (let state = State_new sc
      in states_loop rest
           (sm\<lparr>stateIds := stateIds sm @ [stateId],
               sm_states := (sm_states sm)(stateId \<mapsto> state)\<rparr>)
           (idsArrays @ [componentIds state]))"

definition StateManager_new :: "ComponentConfig \<Rightarrow> StateManager" where
  "StateManager_new cfg =
     (let sm0 = \<lparr>dynamicChildrenIds = [], sm_states = Map.empty, stateIds = [],
                 components = Map.empty, currentState = None, currentStateId = None,
                 componentKeys = Map.empty, residentComponentsByKey = Map.empty\<rparr>;
          (sm, idsArrays) = states_loop (states cfg) sm0 []
      in sm\<lparr>dynamicChildrenIds := uniq (flatten idsArrays)\<rparr>)"

definition getStateConfigById :: "StateManager \<Rightarrow> string \<Rightarrow> (string \<times> StateConfig) list option" where
  "getStateConfigById sm stateId =
     (case sm_states sm stateId of None \<Rightarrow> None | Some st \<Rightarrow> Some (config st))"

definition addComponent :: "StateManager \<Rightarrow> nat \<Rightarrow> string \<Rightarrow> string option \<Rightarrow> StateManager" where
  "addComponent sm component cid childKey =
     (if cid \<notin> set (dynamicChildrenIds sm) then
        (case childKey of
           None \<Rightarrow> sm
         | Some k \<Rightarrow> sm\<lparr>residentComponentsByKey := (residentComponentsByKey sm)(k \<mapsto> component)\<rparr>)
      else
        (let sm1 = sm\<lparr>components := (components sm)(cid \<mapsto> component)\<rparr>
         in case childKey of
              None \<Rightarrow> sm1
            | Some k \<Rightarrow> sm1\<lparr>componentKeys := (componentKeys sm1)(cid \<mapsto> k)\<rparr>))"

text \<open>
  \<open>setupState\<close>: a hiding pass and a showing pass. Reading a property of \<^verbatim>\<open>this._components[id]\<close> when no
  component is stored under \<open>id\<close> raises; the objects written before that stay written,
  so the error carries the store as it then is.
\<close>

fun hide_loop :: "heap \<Rightarrow> (string \<rightharpoonup> nat) \<Rightarrow> string list \<Rightarrow> error \<times> heap + heap" where
  "hide_loop h comps [] = Inr h"
| "hide_loop h comps (i # ids) =
     (case comps i of
        None \<Rightarrow> Inl (TypeError, h)
      | Some a \<Rightarrow> hide_loop (modify h a (\<lambda>ob. ob\<lparr>obj_visible := False\<rparr>)) comps ids)"

fun show_loop ::
  "heap \<Rightarrow> (string \<rightharpoonup> nat) \<Rightarrow> (string \<times> StateConfig) list \<Rightarrow> string list
     \<Rightarrow> error \<times> heap + heap" where
  "show_loop h comps sc [] = Inr h"
| "show_loop h comps sc (i # ids) =
     (case comps i of
        None \<Rightarrow> Inl (TypeError, h)
      | Some a \<Rightarrow>
          (let h1 = modify h a (\<lambda>ob. ob\<lparr>obj_visible := True\<rparr>)
           in case map_of sc i of
                None \<Rightarrow> Inl (TypeError, h1)
              | Some p \<Rightarrow> show_loop (modify h1 a (\<lambda>ob. setupCommonParams ob p)) comps sc ids))"

definition setupState :: "heap \<Rightarrow> StateManager \<Rightarrow> error \<times> heap + heap" where
  "setupState h sm =
     (case currentState sm of
        None \<Rightarrow> Inl (TypeError, h)
      | Some st \<Rightarrow>
          (let idsToShow = componentIds st;
               idsToHide = difference (dynamicChildrenIds sm) idsToShow
           in case hide_loop h (components sm) idsToHide of
                Inl e \<Rightarrow> Inl e
              | Inr h1 \<Rightarrow> show_loop h1 (components sm) (config st) idsToShow))"

definition setState ::
  "heap \<Rightarrow> StateManager \<Rightarrow> string \<Rightarrow> bool
     \<Rightarrow> error \<times> heap \<times> StateManager + heap \<times> StateManager" where
  "setState h sm stateId force =
     (if currentStateId sm = Some stateId \<and> \<not> force then Inr (h, sm)
      else case sm_states sm stateId of
             None \<Rightarrow> Inr (h, sm)
           | Some st \<Rightarrow>
               (let sm1 = sm\<lparr>currentStateId := Some stateId, currentState := Some st\<rparr>
                in case setupState h sm1 of
                     Inl (e, h1) \<Rightarrow> Inl (e, h1, sm1)
                   | Inr h1 \<Rightarrow> Inr (h1, sm1)))"

text \<open>\<open>getActiveComponentByKey\<close>: \<open>None\<close> is the source's \<^verbatim>\<open>null\<close>.\<close>

fun scan_ids :: "StateManager \<Rightarrow> string \<Rightarrow> string list \<Rightarrow> nat option" where
  "scan_ids sm k [] = None"
| "scan_ids sm k (i # ids) =
     (if componentKeys sm i = Some k then components sm i else scan_ids sm k ids)"

definition getActiveComponentByKey :: "StateManager \<Rightarrow> string \<Rightarrow> nat option" where
  "getActiveComponentByKey sm k =
     (case residentComponentsByKey sm k of
        Some a \<Rightarrow> Some a
      | None \<Rightarrow>
          (case currentState sm of
             None \<Rightarrow> None
           | Some st \<Rightarrow> scan_ids sm k (componentIds st)))"

section \<open>ComponentClip\<close>

text \<open>
  The factories of the engine allocate; texture lookup, origin and drawing calls leave
  the modelled fields alone. A text config without \<^verbatim>\<open>textStyle\<close> and a polygon config
  without \<^verbatim>\<open>vertices\<close> raise when the missing property is read.
\<close>

definition createImageFromConfig :: "heap \<Rightarrow> ComponentConfig \<Rightarrow> heap \<times> nat" where
  "createImageFromConfig h cfg =
     (let (h1, image) = alloc h (newGameObject 0 0)
      in (modify h1 image (\<lambda>ob. setupCommonParams ob (params cfg)), image))"

definition createTileSpriteFromConfig :: "heap \<Rightarrow> ComponentConfig \<Rightarrow> heap \<times> nat" where
  "createTileSpriteFromConfig h cfg =
     (let (h1, sprite) = alloc h (newGameObject 0 0)
      in (modify h1 sprite (\<lambda>ob. setupCommonParams ob (params cfg)), sprite))"

definition createTextFromConfig :: "heap \<Rightarrow> ComponentConfig \<Rightarrow> error + heap \<times> nat" where
  "createTextFromConfig h cfg =
     (let (h1, text) = alloc h (newGameObject 0 0)
      in case textStyle cfg of
           None \<Rightarrow> Inl TypeError
         | Some st \<Rightarrow> Inr (modify h1 text (\<lambda>ob. setupCommonParams ob (params cfg)), text))"

definition createHitZoneFromConfig :: "heap \<Rightarrow> ComponentConfig \<Rightarrow> heap \<times> nat" where
  "createHitZoneFromConfig h cfg =
     alloc h (newGameObject (or_default (cfg_x (params cfg)) 0) (or_default (cfg_y (params cfg)) 0))"

definition createPolygonFromConfig :: "heap \<Rightarrow> ComponentConfig \<Rightarrow> error + heap \<times> nat" where
  "createPolygonFromConfig h cfg =
     (let (h1, shape) = alloc h (newGameObject 0 0)
      in case vertices cfg of
           None \<Rightarrow> Inl TypeError
         | Some vs \<Rightarrow> Inr (modify h1 shape (\<lambda>ob. setupCommonParams ob (params cfg)), shape))"

text \<open>The loop over \<^verbatim>\<open>config.masking\<close>; \<open>m\<close> is the polygon the mask is made of.\<close>

fun mask_loop :: "heap \<Rightarrow> (string \<rightharpoonup> nat) \<Rightarrow> nat \<Rightarrow> string list \<Rightarrow> error + heap" where
  "mask_loop h byId m [] = Inr h"
| "mask_loop h byId m (i # ids) =
     (case byId i of
        None \<Rightarrow> Inl TypeError
      | Some a \<Rightarrow> mask_loop (modify h a (\<lambda>ob. ob\<lparr>obj_mask := Some m\<rparr>)) byId m ids)"

text \<open>
  The end of \<open>_createChildFromConfig\<close>, reached when a child was created: the child is
  recorded under its id, pushed, added to the container unless it is a mask, and
  handed to the state manager.
\<close>

definition registerChild ::
  "ComponentClip \<Rightarrow> nat \<Rightarrow> string \<Rightarrow> string option \<Rightarrow> bool \<Rightarrow> ComponentClip" where
  "registerChild c child cid childKey addAsChild =
     c\<lparr>childrenById := (childrenById c)(cid \<mapsto> child),
       childComponentClips := childComponentClips c @ [child],
       displayList := (if addAsChild then displayList c @ [child] else displayList c),
       stateManager := addComponent (stateManager c) child cid childKey\<rparr>"

text \<open>
  The constructor, \<open>_parseConfig\<close> and \<open>_createChildFromConfig\<close>. A nested clip is
  built on the same store; its parent keeps the address of its container.
\<close>

fun ComponentClip_new :: "heap \<Rightarrow> ComponentConfig \<Rightarrow> error + heap \<times> ComponentClip"
  and parseConfig ::
    "heap \<Rightarrow> ComponentClip \<Rightarrow> ComponentConfig list \<Rightarrow> error + heap \<times> ComponentClip"
  and createChildFromConfig ::
    "heap \<Rightarrow> ComponentClip \<Rightarrow> ComponentConfig \<Rightarrow> error + heap \<times> ComponentClip"
where
  "ComponentClip_new h (ComponentConfig ty cid k p chs sts msk vs tst) =
     (let cfg = ComponentConfig ty cid k p chs sts msk vs tst;
          (h1, this) = alloc h (newGameObject 0 0)
      in parseConfig h1
           \<lparr>self = this, childComponentClips = [], clip_key = k,
            stateManager = StateManager_new cfg, childrenById = Map.empty,
            displayList = []\<rparr>
           chs)"
| "parseConfig h c [] = Inr (h, c)"
| "parseConfig h c (childConfig # rest) =
     (case createChildFromConfig h c childConfig of
        Inl e \<Rightarrow> Inl e
      | Inr (h1, c1) \<Rightarrow> parseConfig h1 c1 rest)"
| "createChildFromConfig h c (ComponentConfig ty cid k p chs sts msk vs tst) =
     (let cfg = ComponentConfig ty cid k p chs sts msk vs tst in
      if ty = TYPE_IMAGE then
        (let (h1, child) = createImageFromConfig h cfg
         in Inr (h1, registerChild c child cid k True))
      else if ty = TYPE_TEXT then
        (case createTextFromConfig h cfg of
           Inl e \<Rightarrow> Inl e
         | Inr (h1, child) \<Rightarrow> Inr (h1, registerChild c child cid k True))
      else if ty = TYPE_TILE_SPRITE then
        (let (h1, child) = createTileSpriteFromConfig h cfg
         in Inr (h1, registerChild c child cid k True))
      else if ty = TYPE_COMPONENT then
        (case ComponentClip_new h (ComponentConfig ty cid k p chs sts msk vs tst) of
           Inl e \<Rightarrow> Inl e
         | Inr (h1, sub) \<Rightarrow>
             Inr (modify h1 (self sub) (\<lambda>ob. setupCommonParams ob p),
                  registerChild c (self sub) cid k True))
      else if ty = TYPE_ZONE then
        (let (h1, child) = createHitZoneFromConfig h cfg
         in Inr (h1, registerChild c child cid k True))
      else if ty = TYPE_POLYGON then
        (case createPolygonFromConfig h cfg of
           Inl e \<Rightarrow> Inl e
         | Inr (h1, child) \<Rightarrow>
             (case msk of
                None \<Rightarrow> Inr (h1, registerChild c child cid k True)
              | Some ids \<Rightarrow>
                  (case mask_loop h1 (childrenById c) child ids of
                     Inl e \<Rightarrow> Inl e
                   | Inr h2 \<Rightarrow> Inr (h2, registerChild c child cid k False))))
      else Inr (h, c))"

text \<open>The public methods of the clip that the state manager serves.\<close>

definition applyChildParams :: "heap \<Rightarrow> ComponentClip \<Rightarrow> string \<Rightarrow> StateConfig \<Rightarrow> heap" where
  "applyChildParams h c cid p =
     (case childrenById c cid of
        None \<Rightarrow> h
      | Some a \<Rightarrow> modify h a (\<lambda>ob. setupCommonParams ob p))"

definition getChildClip :: "ComponentClip \<Rightarrow> string \<Rightarrow> nat option" where
  "getChildClip c k = getActiveComponentByKey (stateManager c) k"

section \<open>Notions used to state the properties\<close>

text \<open>
  The union of lists without duplicates, each value at the place of its first
  appearance, written as the specification words it.
\<close>

fun first_appearance :: "'a list \<Rightarrow> 'a list" where
  "first_appearance [] = []"
| "first_appearance (x # xs) = x # filter (\<lambda>y. y \<noteq> x) (first_appearance xs)"

text \<open>For every declared state, in enumeration order, the keys of its config.\<close>

definition state_keys :: "ComponentConfig \<Rightarrow> string list list" where
  "state_keys cfg = map (\<lambda>(stateId, sc). map fst sc) (states cfg)"

text \<open>An object made visible and given the params \<open>p\<close>.\<close>

definition shown :: "GameObject \<Rightarrow> StateConfig \<Rightarrow> GameObject" where
  "shown ob p = setupCommonParams (ob\<lparr>obj_visible := True\<rparr>) p"

text \<open>
  What holds of a clip built from \<open>cfg\<close> on a store of \<open>n\<close> objects: the state table is
  the one the constructor derived from \<open>cfg\<close>; every recorded child is an allocated
  object and two ids never name the same object; the dynamic components are exactly the
  children recorded under a dynamic id; an object stored under a resident key is not a
  dynamic component; a key is recorded only for a stored component; the current state
  is the state of the current id.
\<close>

definition clip_inv :: "ComponentConfig \<Rightarrow> nat \<Rightarrow> ComponentClip \<Rightarrow> bool" where
  "clip_inv cfg n c \<longleftrightarrow>
     dynamicChildrenIds (stateManager c) = dynamicChildrenIds (StateManager_new cfg) \<and>
     sm_states (stateManager c) = sm_states (StateManager_new cfg) \<and>
     (\<forall>i a. childrenById c i = Some a \<longrightarrow> a < n) \<and>
     (\<forall>i j a. childrenById c i = Some a \<longrightarrow> childrenById c j = Some a \<longrightarrow> i = j) \<and>
     (\<forall>i. components (stateManager c) i =
          (if i \<in> set (dynamicChildrenIds (stateManager c)) then childrenById c i else None)) \<and>
     (\<forall>k a. residentComponentsByKey (stateManager c) k = Some a \<longrightarrow>
          a < n \<and> (\<forall>i. components (stateManager c) i \<noteq> Some a)) \<and>
     (\<forall>i k. componentKeys (stateManager c) i = Some k \<longrightarrow> components (stateManager c) i \<noteq> None) \<and>
     (currentStateId (stateManager c) = None \<longrightarrow> currentState (stateManager c) = None) \<and>
     (\<forall>sid. currentStateId (stateManager c) = Some sid \<longrightarrow>
          currentState (stateManager c) \<noteq> None \<and>
          currentState (stateManager c) = sm_states (stateManager c) sid)"

text \<open>
  A handle of a resident child: recorded under an id that no state lists, or stored in
  the resident-by-key dictionary.
\<close>

definition resident_handle :: "ComponentClip \<Rightarrow> nat \<Rightarrow> bool" where
  "resident_handle c a \<longleftrightarrow>
     (\<exists>cid. cid \<notin> set (dynamicChildrenIds (stateManager c)) \<and> childrenById c cid = Some a) \<or>
     (\<exists>k. residentComponentsByKey (stateManager c) k = Some a)"

text \<open>
  The stores and clips that running the code produces: a clip is constructed from its
  config on some store; afterwards its owner calls \<open>setState\<close> (which returns or
  raises, and in both cases leaves its writes behind) and \<open>applyChildParams\<close>, and the
  rest of the program writes to objects and allocates new ones.
\<close>

inductive reachable :: "ComponentConfig \<Rightarrow> heap \<Rightarrow> ComponentClip \<Rightarrow> bool" for cfg where
  constructed: "ComponentClip_new h0 cfg = Inr (h, c) \<Longrightarrow> reachable cfg h c"
| state_set: "reachable cfg h c \<Longrightarrow> setState h (stateManager c) stateId force = Inr (h', sm')
    \<Longrightarrow> reachable cfg h' (c\<lparr>stateManager := sm'\<rparr>)"
| state_raised: "reachable cfg h c \<Longrightarrow> setState h (stateManager c) stateId force = Inl (e, h', sm')
    \<Longrightarrow> reachable cfg h' (c\<lparr>stateManager := sm'\<rparr>)"
| params_applied: "reachable cfg h c \<Longrightarrow> reachable cfg (applyChildParams h c cid p) c"
| environment: "reachable cfg h c \<Longrightarrow> length h \<le> length h' \<Longrightarrow> reachable cfg h' c"

section \<open>A small clip\<close>

text \<open>
  Three images \<open>c1\<close>, \<open>c2\<close>, \<open>c3\<close> with keys \<open>btn\<close>, \<open>lbl\<close>, \<open>btn\<close>; state \<open>A\<close>
  shows \<open>c1\<close> at \<open>x = 10\<close>, state \<open>B\<close> shows \<open>c2\<close> at \<open>x = 20\<close>; no state lists \<open>c3\<close>.
  \<open>example_heap\<close> and \<open>example_clip\<close> are the store and clip after construction,
  \<open>example_heap_A\<close> and \<open>example_clip_A\<close> after \<open>setState("A")\<close>, and
  \<open>example_heap_moved\<close> after \<open>c1\<close> was then moved to \<open>x = 99\<close>.
  In \<open>example_unregistered\<close> the only state lists a child that the clip does not have.
\<close>

definition no_params :: StateConfig where
  "no_params = \<lparr>cfg_x = None, cfg_y = None, cfg_scaleX = None, cfg_scaleY = None,
                 cfg_angle = None, cfg_alpha = None\<rparr>"

definition example_config :: ComponentConfig where
  "example_config =
     ComponentConfig ''component'' ''root'' None no_params
       [ComponentConfig ''image'' ''c1'' (Some ''btn'') (no_params\<lparr>cfg_x := Some 1, cfg_y := Some 2\<rparr>)
          [] [] None None None,
        ComponentConfig ''image'' ''c2'' (Some ''lbl'') no_params [] [] None None None,
        ComponentConfig ''image'' ''c3'' (Some ''btn'') (no_params\<lparr>cfg_x := Some 7\<rparr>)
          [] [] None None None]
       [(''A'', [(''c1'', no_params\<lparr>cfg_x := Some 10\<rparr>)]),
        (''B'', [(''c2'', no_params\<lparr>cfg_x := Some 20\<rparr>)])]
       None None None"

definition example_state_A :: State where
  "example_state_A = \<lparr>config = [(''c1'', no_params\<lparr>cfg_x := Some 10\<rparr>)], componentIds = [''c1'']\<rparr>"

definition example_state_B :: State where
  "example_state_B = \<lparr>config = [(''c2'', no_params\<lparr>cfg_x := Some 20\<rparr>)], componentIds = [''c2'']\<rparr>"

definition example_heap :: heap where
  "example_heap = [newGameObject 0 0, newGameObject 1 2, newGameObject 0 0, newGameObject 7 0]"

definition example_clip :: ComponentClip where
  "example_clip =
     \<lparr>self = 0, childComponentClips = [1, 2, 3], clip_key = None,
      stateManager =
        \<lparr>dynamicChildrenIds = [''c1'', ''c2''],
         sm_states = [''A'' \<mapsto> example_state_A, ''B'' \<mapsto> example_state_B],
         stateIds = [''A'', ''B''],
         components = [''c1'' \<mapsto> 1, ''c2'' \<mapsto> 2],
         currentState = None, currentStateId = None,
         componentKeys = [''c1'' \<mapsto> ''btn'', ''c2'' \<mapsto> ''lbl''],
         residentComponentsByKey = [''btn'' \<mapsto> 3]\<rparr>,
      childrenById = [''c1'' \<mapsto> 1, ''c2'' \<mapsto> 2, ''c3'' \<mapsto> 3],
      displayList = [1, 2, 3]\<rparr>"

definition example_sm_A :: StateManager where
  "example_sm_A =
     (stateManager example_clip)\<lparr>currentStateId := Some ''A'', currentState := Some example_state_A\<rparr>"

definition example_clip_A :: ComponentClip where
  "example_clip_A = example_clip\<lparr>stateManager := example_sm_A\<rparr>"

definition example_heap_A :: heap where
  "example_heap_A =
     [newGameObject 0 0, newGameObject 10 0, (newGameObject 0 0)\<lparr>obj_visible := False\<rparr>,
      newGameObject 7 0]"

definition example_heap_moved :: heap where
  "example_heap_moved =
     [newGameObject 0 0, newGameObject 99 0, (newGameObject 0 0)\<lparr>obj_visible := False\<rparr>,
      newGameObject 7 0]"

definition example_unregistered :: ComponentConfig where
  "example_unregistered =
     ComponentConfig ''component'' ''root'' None no_params []
       [(''A'', [(''ghost'', no_params)])] None None None"

section \<open>Writes through references\<close>

lemma length_modify [simp]: "length (modify h a f) = length h"
  by (simp add: modify_def)

lemma nth_modify_same: "a < length h \<Longrightarrow> modify h a f ! a = f (h ! a)"
  by (simp add: modify_def)

lemma nth_modify_other: "b \<noteq> a \<Longrightarrow> modify h a f ! b = h ! b"
  by (simp add: modify_def)

section \<open>The hiding pass and the showing pass of setupState\<close>

lemma hide_loop_length:
  "hide_loop h comps ids = Inr h' \<Longrightarrow> length h' = length h"
  "hide_loop h comps ids = Inl (e, h') \<Longrightarrow> length h' = length h"
  by (induction h comps ids rule: hide_loop.induct) (auto split: option.splits)

lemma hide_loop_frame:
  assumes "\<forall>i \<in> set ids. comps i \<noteq> Some b"
  shows "hide_loop h comps ids = Inr h' \<Longrightarrow> h' ! b = h ! b"
    and "hide_loop h comps ids = Inl (e, h') \<Longrightarrow> h' ! b = h ! b"
  using assms
  by (induction h comps ids rule: hide_loop.induct)
     (auto split: option.splits simp: nth_modify_other)

lemma hide_loop_effect:
  "hide_loop h comps ids = Inr h' \<Longrightarrow> \<exists>i \<in> set ids. comps i = Some a \<Longrightarrow> a < length h
     \<Longrightarrow> h' ! a = (h ! a)\<lparr>obj_visible := False\<rparr>"
proof (induction h comps ids rule: hide_loop.induct)
  case (1 h comps)
  then show ?case by simp
next
  case (2 h comps j ids)
  from "2.prems"(1) obtain b where b: "comps j = Some b"
    and rest: "hide_loop (modify h b (\<lambda>ob. ob\<lparr>obj_visible := False\<rparr>)) comps ids = Inr h'"
    by (auto split: option.splits)
  let ?h1 = "modify h b (\<lambda>ob. ob\<lparr>obj_visible := False\<rparr>)"
  have len: "a < length ?h1" using "2.prems"(3) by simp
  show ?case
  proof (cases "\<exists>i \<in> set ids. comps i = Some a")
    case True
    have h1a: "?h1 ! a = (h ! a)\<lparr>obj_visible := False\<rparr> \<or> ?h1 ! a = h ! a"
      using "2.prems"(3) by (cases "a = b") (simp_all add: nth_modify_same nth_modify_other)
    have "h' ! a = (?h1 ! a)\<lparr>obj_visible := False\<rparr>"
      using "2.IH"[OF b rest True len] .
    with h1a show ?thesis by auto
  next
    case False
    with "2.prems"(2) b have ab: "a = b" by auto
    from False have "\<forall>l \<in> set ids. comps l \<noteq> Some a" by blast
    from hide_loop_frame(1)[OF this rest] have "h' ! a = ?h1 ! a" .
    with ab "2.prems"(3) show ?thesis by (simp add: nth_modify_same)
  qed
qed

lemma hide_loop_returns:
  "set ids \<subseteq> dom comps \<Longrightarrow> \<exists>h'. hide_loop h comps ids = Inr h'"
  by (induction h comps ids rule: hide_loop.induct) (auto split: option.splits)

lemma show_loop_length:
  "show_loop h comps sc ids = Inr h' \<Longrightarrow> length h' = length h"
  "show_loop h comps sc ids = Inl (e, h') \<Longrightarrow> length h' = length h"
  by (induction h comps sc ids rule: show_loop.induct)
     (auto split: option.splits simp: Let_def)

lemma show_loop_frame:
  assumes "\<forall>i \<in> set ids. comps i \<noteq> Some b"
  shows "show_loop h comps sc ids = Inr h' \<Longrightarrow> h' ! b = h ! b"
    and "show_loop h comps sc ids = Inl (e, h') \<Longrightarrow> h' ! b = h ! b"
  using assms
  by (induction h comps sc ids rule: show_loop.induct)
     (auto split: option.splits simp: nth_modify_other Let_def)

lemma show_loop_returns:
  "set ids \<subseteq> dom comps \<Longrightarrow> set ids \<subseteq> dom (map_of sc) \<Longrightarrow> \<exists>h'. show_loop h comps sc ids = Inr h'"
  by (induction h comps sc ids rule: show_loop.induct) (auto split: option.splits simp: Let_def)

lemma shown_idem: "shown (shown ob p) p = shown ob p"
  by (simp add: shown_def setupCommonParams_def)

lemma show_loop_effect:
  assumes inj: "\<forall>j \<in> set ids. comps j = Some a \<longrightarrow> j = i"
  shows "show_loop h comps sc ids = Inr h' \<Longrightarrow> i \<in> set ids \<Longrightarrow> comps i = Some a \<Longrightarrow> a < length h
     \<Longrightarrow> map_of sc i = Some p \<Longrightarrow> h' ! a = setupCommonParams ((h ! a)\<lparr>obj_visible := True\<rparr>) p"
  using inj
proof (induction h comps sc ids rule: show_loop.induct)
  case (1 h comps sc)
  from "1.prems"(2) show ?case by simp
next
  case (2 h comps sc j ids)
  from "2.prems"(1) obtain b where b: "comps j = Some b"
    by (cases "comps j") simp_all
  from "2.prems"(1) b obtain q where q: "map_of sc j = Some q"
    by (cases "map_of sc j") (simp_all add: Let_def)
  from "2.prems"(1) b q
  have rest: "show_loop (modify (modify h b (\<lambda>ob. ob\<lparr>obj_visible := True\<rparr>)) b (\<lambda>ob. setupCommonParams ob q)) comps sc ids = Inr h'"
    by (simp add: Let_def)
  let ?h1 = "modify (modify h b (\<lambda>ob. ob\<lparr>obj_visible := True\<rparr>)) b (\<lambda>ob. setupCommonParams ob q)"
  have inj': "\<forall>l \<in> set ids. comps l = Some a \<longrightarrow> l = i" using "2.prems"(6) by simp
  have len: "a < length ?h1" using "2.prems"(4) by simp
  show ?case
  proof (cases "i = j")
    case True
    with b q "2.prems" have ab: "a = b" and pq: "p = q" by simp_all
    have h1a: "?h1 ! a = shown (h ! a) p"
      using ab pq "2.prems"(4) by (simp add: nth_modify_same shown_def)
    show ?thesis
    proof (cases "i \<in> set ids")
      case True
      have "h' ! a = setupCommonParams ((?h1 ! a)\<lparr>obj_visible := True\<rparr>) p"
        using "2.IH"[OF b refl q rest True "2.prems"(3) len "2.prems"(5) inj'] .
      then have "h' ! a = shown (shown (h ! a) p) p" using h1a by (simp add: shown_def)
      then show ?thesis by (simp add: shown_idem) (simp add: shown_def)
    next
      case False
      with inj' have "\<forall>l \<in> set ids. comps l \<noteq> Some a" by auto
      from show_loop_frame(1)[OF this rest] h1a show ?thesis by (simp add: shown_def)
    qed
  next
    case False
    with "2.prems"(2) have iin: "i \<in> set ids" by simp
    from False "2.prems"(6) b have "a \<noteq> b" by auto
    then have "?h1 ! a = h ! a" by (simp add: nth_modify_other)
    moreover have "h' ! a = setupCommonParams ((?h1 ! a)\<lparr>obj_visible := True\<rparr>) p"
      using "2.IH"[OF b refl q rest iin "2.prems"(3) len "2.prems"(5) inj'] .
    ultimately show ?thesis by simp
  qed
qed

section \<open>Construction allocates\<close>

lemma mask_loop_length: "mask_loop h byId m ids = Inr h' \<Longrightarrow> length h' = length h"
  by (induction h byId m ids rule: mask_loop.induct) (auto split: option.splits)

lemma createImage_shape:
  "createImageFromConfig h cfg = (h', a) \<Longrightarrow> a = length h \<and> length h' = Suc (length h)"
  by (auto simp: createImageFromConfig_def alloc_def)

lemma createTileSprite_shape:
  "createTileSpriteFromConfig h cfg = (h', a) \<Longrightarrow> a = length h \<and> length h' = Suc (length h)"
  by (auto simp: createTileSpriteFromConfig_def alloc_def)

lemma createHitZone_shape:
  "createHitZoneFromConfig h cfg = (h', a) \<Longrightarrow> a = length h \<and> length h' = Suc (length h)"
  by (auto simp: createHitZoneFromConfig_def alloc_def)

lemma createText_shape:
  "createTextFromConfig h cfg = Inr (h', a) \<Longrightarrow> a = length h \<and> length h' = Suc (length h)"
  by (auto simp: createTextFromConfig_def alloc_def split: option.splits)

lemma createPolygon_shape:
  "createPolygonFromConfig h cfg = Inr (h', a) \<Longrightarrow> a = length h \<and> length h' = Suc (length h)"
  by (auto simp: createPolygonFromConfig_def alloc_def split: option.splits)

lemma self_registerChild [simp]: "self (registerChild c a cid k b) = self c"
  by (simp add: registerChild_def)

lemmas TYPE_defs = TYPE_IMAGE_def TYPE_TEXT_def TYPE_TILE_SPRITE_def TYPE_COMPONENT_def
  TYPE_ZONE_def TYPE_POLYGON_def

lemma createChild_image:
  "ctype ch = TYPE_IMAGE \<Longrightarrow> createChildFromConfig h c ch =
     (case createImageFromConfig h ch of (h1, child) \<Rightarrow>
        Inr (h1, registerChild c child (childId ch) (key ch) True))"
  by (cases ch) simp

lemma createChild_text:
  "ctype ch = TYPE_TEXT \<Longrightarrow> createChildFromConfig h c ch =
     (case createTextFromConfig h ch of Inl e \<Rightarrow> Inl e
      | Inr (h1, child) \<Rightarrow> Inr (h1, registerChild c child (childId ch) (key ch) True))"
  by (cases ch) (simp add: TYPE_defs split: sum.splits option.splits)

lemma createChild_tileSprite:
  "ctype ch = TYPE_TILE_SPRITE \<Longrightarrow> createChildFromConfig h c ch =
     (case createTileSpriteFromConfig h ch of (h1, child) \<Rightarrow>
        Inr (h1, registerChild c child (childId ch) (key ch) True))"
  by (cases ch) (simp add: TYPE_defs split: sum.splits option.splits)

lemma createChild_component:
  "ctype ch = TYPE_COMPONENT \<Longrightarrow> createChildFromConfig h c ch =
     (case ComponentClip_new h ch of Inl e \<Rightarrow> Inl e
      | Inr (h1, sub) \<Rightarrow>
          Inr (modify h1 (self sub) (\<lambda>ob. setupCommonParams ob (params ch)),
               registerChild c (self sub) (childId ch) (key ch) True))"
  by (cases ch) (simp add: TYPE_defs del: ComponentClip_new.simps split: sum.splits)

lemma createChild_zone:
  "ctype ch = TYPE_ZONE \<Longrightarrow> createChildFromConfig h c ch =
     (case createHitZoneFromConfig h ch of (h1, child) \<Rightarrow>
        Inr (h1, registerChild c child (childId ch) (key ch) True))"
  by (cases ch) (simp add: TYPE_defs split: sum.splits option.splits)

lemma createChild_polygon:
  "ctype ch = TYPE_POLYGON \<Longrightarrow> createChildFromConfig h c ch =
     (case createPolygonFromConfig h ch of Inl e \<Rightarrow> Inl e
      | Inr (h1, child) \<Rightarrow>
          (case masking ch of
             None \<Rightarrow> Inr (h1, registerChild c child (childId ch) (key ch) True)
           | Some ids \<Rightarrow>
               (case mask_loop h1 (childrenById c) child ids of Inl e \<Rightarrow> Inl e
                | Inr h2 \<Rightarrow> Inr (h2, registerChild c child (childId ch) (key ch) False))))"
  by (cases ch) (simp add: TYPE_defs split: sum.splits option.splits)

lemma createChild_unknown:
  "ctype ch \<notin> {TYPE_IMAGE, TYPE_TEXT, TYPE_TILE_SPRITE, TYPE_COMPONENT, TYPE_ZONE, TYPE_POLYGON}
     \<Longrightarrow> createChildFromConfig h c ch = Inr (h, c)"
  by (cases ch) simp

lemma createChild_plain:
  assumes "ctype ch \<noteq> TYPE_COMPONENT" and "createChildFromConfig h c ch = Inr (h', c')"
  shows "(h' = h \<and> c' = c) \<or>
         (length h' = Suc (length h) \<and>
          (\<exists>b. c' = registerChild c (length h) (childId ch) (key ch) b))"
proof -
  consider (img) "ctype ch = TYPE_IMAGE" | (tx) "ctype ch = TYPE_TEXT"
    | (tile) "ctype ch = TYPE_TILE_SPRITE" | (zone) "ctype ch = TYPE_ZONE"
    | (poly) "ctype ch = TYPE_POLYGON"
    | (unk) "ctype ch \<notin> {TYPE_IMAGE, TYPE_TEXT, TYPE_TILE_SPRITE, TYPE_COMPONENT, TYPE_ZONE, TYPE_POLYGON}"
    using assms(1) by auto
  then show ?thesis
  proof cases
    case img
    from assms(2)[unfolded createChild_image[OF img]] show ?thesis
      by (auto split: prod.splits dest!: createImage_shape)
  next
    case tx
    from assms(2)[unfolded createChild_text[OF tx]] show ?thesis
      by (auto split: sum.splits prod.splits dest!: createText_shape)
  next
    case tile
    from assms(2)[unfolded createChild_tileSprite[OF tile]] show ?thesis
      by (auto split: prod.splits dest!: createTileSprite_shape)
  next
    case zone
    from assms(2)[unfolded createChild_zone[OF zone]] show ?thesis
      by (auto split: prod.splits dest!: createHitZone_shape)
  next
    case poly
    from assms(2)[unfolded createChild_polygon[OF poly]] show ?thesis
      by (auto split: sum.splits prod.splits option.splits
               dest!: createPolygon_shape mask_loop_length)
  next
    case unk
    from assms(2)[unfolded createChild_unknown[OF unk]] show ?thesis by simp
  qed
qed

lemma construct_length:
  "ComponentClip_new h cfg = Inr (h', c') \<Longrightarrow> self c' = length h \<and> length h < length h'"
  "parseConfig h1 c1 chs = Inr (h1', c1') \<Longrightarrow> length h1 \<le> length h1' \<and> self c1' = self c1"
  "createChildFromConfig h2 c2 ch = Inr (h2', c2') \<Longrightarrow> length h2 \<le> length h2' \<and> self c2' = self c2"
proof (induction h cfg and h1 c1 chs and h2 c2 ch arbitrary: h' c' and h1' c1' and h2' c2'
       rule: ComponentClip_new_parseConfig_createChildFromConfig.induct)
  case (1 h ty cid k p chs sts msk vs tst)
  from "1.prems" have "parseConfig (h @ [newGameObject 0 0])
           \<lparr>self = length h, childComponentClips = [], clip_key = k,
            stateManager = StateManager_new (ComponentConfig ty cid k p chs sts msk vs tst), childrenById = Map.empty,
            displayList = []\<rparr> chs = Inr (h', c')"
    by (simp add: alloc_def)
  with "1.IH"[OF refl refl, of "h @ [newGameObject 0 0]" "length h" h' c'] show ?case
    by (simp add: alloc_def)
next
  case (2 h c)
  then show ?case by simp
next
  case (3 h c childConfig rest)
  from "3.prems" obtain hm cm where
    m: "createChildFromConfig h c childConfig = Inr (hm, cm)" and r: "parseConfig hm cm rest = Inr (h1', c1')"
    by (cases "createChildFromConfig h c childConfig") auto
  from "3.IH"(1)[OF m] "3.IH"(2)[OF m _ r] show ?case by simp
next
  case (4 h c ty cid k p chs sts msk vs tst)
  let ?ch = "ComponentConfig ty cid k p chs sts msk vs tst"
  show ?case
  proof (cases "ty = TYPE_COMPONENT")
    case True
    then have ct: "ctype ?ch = TYPE_COMPONENT" by simp
    from "4.prems"[unfolded createChild_component[OF ct]] obtain hs sub where
      sub: "ComponentClip_new h ?ch = Inr (hs, sub)"
      and res: "h2' = modify hs (self sub) (\<lambda>ob. setupCommonParams ob (params ?ch))"
               "c2' = registerChild c (self sub) (childId ?ch) (key ?ch) True"
      by (cases "ComponentClip_new h ?ch") auto
    have ne: "ty \<noteq> TYPE_IMAGE" "ty \<noteq> TYPE_TEXT" "ty \<noteq> TYPE_TILE_SPRITE"
      using True by (simp_all add: TYPE_defs)
    from "4.IH"[OF refl ne True sub] res show ?thesis by simp
  next
    case False
    then have "ctype ?ch \<noteq> TYPE_COMPONENT" by simp
    from createChild_plain[OF this "4.prems"] show ?thesis by auto
  qed
qed

lemma createChild_shape:
  assumes "createChildFromConfig h c ch = Inr (h', c')"
  shows "(h' = h \<and> c' = c) \<or>
         (length h < length h' \<and>
          (\<exists>b. c' = registerChild c (length h) (childId ch) (key ch) b))"
proof (cases "ctype ch = TYPE_COMPONENT")
  case True
  from assms[unfolded createChild_component[OF True]] obtain hs sub where
    sub: "ComponentClip_new h ch = Inr (hs, sub)"
    and res: "h' = modify hs (self sub) (\<lambda>ob. setupCommonParams ob (params ch))"
             "c' = registerChild c (self sub) (childId ch) (key ch) True"
    by (cases "ComponentClip_new h ch") auto
  from construct_length(1)[OF sub] res show ?thesis by auto
next
  case False
  from createChild_plain[OF False assms] show ?thesis by auto
qed

section \<open>The state table\<close>

lemma uniq_loop_eq:
  "uniq_loop result xs = result @ filter (\<lambda>y. y \<notin> set result) (first_appearance xs)"
proof (induction xs arbitrary: result)
  case Nil
  then show ?case by simp
next
  case (Cons x xs)
  show ?case
  proof (cases "x \<in> set result")
    case True
    then have "filter (\<lambda>y. y \<notin> set result) (filter (\<lambda>y. y \<noteq> x) (first_appearance xs))
               = filter (\<lambda>y. y \<notin> set result) (first_appearance xs)"
      by (auto intro: filter_cong)
    with True Cons.IH[of result] show ?thesis by simp
  next
    case False
    have "filter (\<lambda>y. y \<notin> set (result @ [x])) (first_appearance xs)
          = filter (\<lambda>y. y \<notin> set result) (filter (\<lambda>y. y \<noteq> x) (first_appearance xs))"
      by (auto intro: filter_cong)
    with False Cons.IH[of "result @ [x]"] show ?thesis by simp
  qed
qed

lemma uniq_first_appearance: "uniq xs = first_appearance xs"
  by (simp add: uniq_def uniq_loop_eq)

lemma set_first_appearance: "set (first_appearance xs) = set xs"
  by (induction xs) auto

lemma distinct_first_appearance: "distinct (first_appearance xs)"
  by (induction xs) auto

lemma set_uniq [simp]: "set (uniq xs) = set xs"
  by (simp add: uniq_first_appearance set_first_appearance)

lemma distinct_uniq [simp]: "distinct (uniq xs)"
  by (simp add: uniq_first_appearance distinct_first_appearance)

lemma states_loop_other:
  "states_loop sts sm arrs = (sm', arrs') \<Longrightarrow>
     dynamicChildrenIds sm' = dynamicChildrenIds sm \<and> components sm' = components sm \<and>
     currentState sm' = currentState sm \<and> currentStateId sm' = currentStateId sm \<and>
     componentKeys sm' = componentKeys sm \<and>
     residentComponentsByKey sm' = residentComponentsByKey sm \<and>
     stateIds sm' = stateIds sm @ map fst sts \<and>
     arrs' = arrs @ map (\<lambda>(stateId, sc). map fst sc) sts"
proof (induction sts sm arrs arbitrary: sm' arrs' rule: states_loop.induct)
  case (1 sm idsArrays)
  then show ?case by simp
next
  case (2 stateId sc rest sm idsArrays)
  from "2.prems"(1) have
    "states_loop rest (sm\<lparr>stateIds := stateIds sm @ [stateId],
        sm_states := (sm_states sm)(stateId \<mapsto> State_new sc)\<rparr>)
        (idsArrays @ [componentIds (State_new sc)]) = (sm', arrs')"
    by (simp add: Let_def)
  from "2.IH"[OF refl this] show ?case
    by (simp add: State_new_def)
qed

lemma states_loop_states:
  "states_loop sts sm arrs = (sm', arrs') \<Longrightarrow> sm_states sm' sid = Some st \<Longrightarrow>
     sm_states sm sid = Some st \<or> (\<exists>sc. (sid, sc) \<in> set sts \<and> st = State_new sc)"
proof (induction sts sm arrs arbitrary: sm' arrs' rule: states_loop.induct)
  case (1 sm idsArrays)
  then show ?case by simp
next
  case (2 stateId sc rest sm idsArrays)
  from "2.prems"(1) have
    "states_loop rest (sm\<lparr>stateIds := stateIds sm @ [stateId],
        sm_states := (sm_states sm)(stateId \<mapsto> State_new sc)\<rparr>)
        (idsArrays @ [componentIds (State_new sc)]) = (sm', arrs')"
    by (simp add: Let_def)
  from "2.IH"[OF refl this "2.prems"(2)] show ?case
    by (auto split: if_splits)
qed

lemma states_loop_declared:
  "states_loop sts sm arrs = (sm', arrs') \<Longrightarrow>
     (sm_states sm' sid = None) = (sm_states sm sid = None \<and> sid \<notin> fst ` set sts)"
proof (induction sts sm arrs arbitrary: sm' arrs' rule: states_loop.induct)
  case (1 sm idsArrays)
  then show ?case by simp
next
  case (2 stateId sc rest sm idsArrays)
  from "2.prems"(1) have
    "states_loop rest (sm\<lparr>stateIds := stateIds sm @ [stateId],
        sm_states := (sm_states sm)(stateId \<mapsto> State_new sc)\<rparr>)
        (idsArrays @ [componentIds (State_new sc)]) = (sm', arrs')"
    by (simp add: Let_def)
  from "2.IH"[OF refl this] show ?case by auto
qed

lemma StateManager_new_fields:
  "dynamicChildrenIds (StateManager_new cfg) = uniq (flatten (state_keys cfg))"
  "components (StateManager_new cfg) = Map.empty"
  "componentKeys (StateManager_new cfg) = Map.empty"
  "residentComponentsByKey (StateManager_new cfg) = Map.empty"
  "currentState (StateManager_new cfg) = None"
  "currentStateId (StateManager_new cfg) = None"
  "stateIds (StateManager_new cfg) = map fst (states cfg)"
  by (auto simp: StateManager_new_def state_keys_def split: prod.splits dest!: states_loop_other)

lemma StateManager_new_states:
  assumes "sm_states (StateManager_new cfg) sid = Some st"
  shows "\<exists>sc. (sid, sc) \<in> set (states cfg) \<and> st = State_new sc"
proof -
  obtain sm arrs where l: "states_loop (states cfg)
      \<lparr>dynamicChildrenIds = [], sm_states = Map.empty, stateIds = [],
       components = Map.empty, currentState = None, currentStateId = None,
       componentKeys = Map.empty, residentComponentsByKey = Map.empty\<rparr> [] = (sm, arrs)"
    by (cases "states_loop (states cfg)
      \<lparr>dynamicChildrenIds = [], sm_states = Map.empty, stateIds = [],
       components = Map.empty, currentState = None, currentStateId = None,
       componentKeys = Map.empty, residentComponentsByKey = Map.empty\<rparr> []") auto
  with assms have "sm_states sm sid = Some st" by (simp add: StateManager_new_def)
  from states_loop_states[OF l this] show ?thesis by simp
qed

lemma StateManager_new_declared:
  "(sm_states (StateManager_new cfg) sid = None) = (sid \<notin> fst ` set (states cfg))"
proof -
  obtain sm arrs where l: "states_loop (states cfg)
      \<lparr>dynamicChildrenIds = [], sm_states = Map.empty, stateIds = [],
       components = Map.empty, currentState = None, currentStateId = None,
       componentKeys = Map.empty, residentComponentsByKey = Map.empty\<rparr> [] = (sm, arrs)"
    by (cases "states_loop (states cfg)
      \<lparr>dynamicChildrenIds = [], sm_states = Map.empty, stateIds = [],
       components = Map.empty, currentState = None, currentStateId = None,
       componentKeys = Map.empty, residentComponentsByKey = Map.empty\<rparr> []") auto
  from states_loop_declared[OF l, of sid] l show ?thesis by (simp add: StateManager_new_def)
qed

lemma StateManager_new_state_ids:
  assumes "sm_states (StateManager_new cfg) sid = Some st"
  shows "componentIds st = map fst (config st)"
    and "set (componentIds st) \<subseteq> set (dynamicChildrenIds (StateManager_new cfg))"
proof -
  from StateManager_new_states[OF assms] obtain sc where
    sc: "(sid, sc) \<in> set (states cfg)" "st = State_new sc" by blast
  then show "componentIds st = map fst (config st)" by (simp add: State_new_def)
  from sc show "set (componentIds st) \<subseteq> set (dynamicChildrenIds (StateManager_new cfg))"
    by (force simp: StateManager_new_fields(1) flatten_def state_keys_def State_new_def)
qed

section \<open>Registration keeps the clip well formed\<close>

lemma addComponent_fields:
  "dynamicChildrenIds (addComponent sm a cid k) = dynamicChildrenIds sm"
  "sm_states (addComponent sm a cid k) = sm_states sm"
  "stateIds (addComponent sm a cid k) = stateIds sm"
  "currentState (addComponent sm a cid k) = currentState sm"
  "currentStateId (addComponent sm a cid k) = currentStateId sm"
  "components (addComponent sm a cid k) =
     (if cid \<in> set (dynamicChildrenIds sm) then (components sm)(cid \<mapsto> a) else components sm)"
  "residentComponentsByKey (addComponent sm a cid k) =
     (if cid \<in> set (dynamicChildrenIds sm) then residentComponentsByKey sm
      else case k of None \<Rightarrow> residentComponentsByKey sm
           | Some k' \<Rightarrow> (residentComponentsByKey sm)(k' \<mapsto> a))"
  "componentKeys (addComponent sm a cid k) =
     (if cid \<in> set (dynamicChildrenIds sm)
      then case k of None \<Rightarrow> componentKeys sm | Some k' \<Rightarrow> (componentKeys sm)(cid \<mapsto> k')
      else componentKeys sm)"
  by (simp_all add: addComponent_def Let_def split: option.splits)

lemma registerChild_fields:
  "childrenById (registerChild c a cid k b) = (childrenById c)(cid \<mapsto> a)"
  "stateManager (registerChild c a cid k b) = addComponent (stateManager c) a cid k"
  by (simp_all add: registerChild_def)

lemma registerChild_inv:
  assumes inv: "clip_inv cfg n c" and lo: "n \<le> a" and hi: "a < n'"
  shows "clip_inv cfg n' (registerChild c a cid k b)"
proof -
  let ?sm = "stateManager c"
  let ?c' = "registerChild c a cid k b"
  let ?sm' = "stateManager ?c'"
  from inv[unfolded clip_inv_def] have dyn: "dynamicChildrenIds ?sm = dynamicChildrenIds (StateManager_new cfg)"
    and sts: "sm_states ?sm = sm_states (StateManager_new cfg)"
    and bound: "\<And>i a'. childrenById c i = Some a' \<Longrightarrow> a' < n"
    and inj: "\<And>i j a'. childrenById c i = Some a' \<Longrightarrow> childrenById c j = Some a' \<Longrightarrow> i = j"
    and comps: "\<And>i. components ?sm i =
          (if i \<in> set (dynamicChildrenIds ?sm) then childrenById c i else None)"
    and res: "\<And>k' a'. residentComponentsByKey ?sm k' = Some a' \<Longrightarrow>
          a' < n \<and> (\<forall>i. components ?sm i \<noteq> Some a')"
    and keys: "\<And>i k'. componentKeys ?sm i = Some k' \<Longrightarrow> components ?sm i \<noteq> None"
    and cur0: "currentStateId ?sm = None \<longrightarrow> currentState ?sm = None"
    and cur: "\<forall>sid. currentStateId ?sm = Some sid \<longrightarrow>
          currentState ?sm \<noteq> None \<and> currentState ?sm = sm_states ?sm sid"
    by blast+
  have cbound: "\<And>i a'. components ?sm i = Some a' \<Longrightarrow> a' < n"
    using comps bound by (metis option.distinct(1))
  have 1: "dynamicChildrenIds ?sm' = dynamicChildrenIds (StateManager_new cfg)"
    by (simp add: registerChild_fields addComponent_fields dyn)
  have 2: "sm_states ?sm' = sm_states (StateManager_new cfg)"
    by (simp add: registerChild_fields addComponent_fields sts)
  have 3: "\<forall>i a'. childrenById ?c' i = Some a' \<longrightarrow> a' < n'"
    using bound lo hi by (fastforce simp: registerChild_fields split: if_splits)
  have 4: "\<forall>i j a'. childrenById ?c' i = Some a' \<longrightarrow> childrenById ?c' j = Some a' \<longrightarrow> i = j"
  proof (intro allI impI)
    fix i j a'
    assume i: "childrenById ?c' i = Some a'" and j: "childrenById ?c' j = Some a'"
    show "i = j"
    proof (cases "i = cid")
      case True
      with i have "a' = a" by (simp add: registerChild_fields)
      with j lo bound[of j a] have "j = cid"
        by (cases "j = cid") (auto simp: registerChild_fields)
      with True show ?thesis by simp
    next
      case False
      with i have i': "childrenById c i = Some a'" by (simp add: registerChild_fields)
      with bound have "a' < n" by blast
      with j lo have "j \<noteq> cid" by (auto simp: registerChild_fields)
      with j have "childrenById c j = Some a'" by (simp add: registerChild_fields)
      with i' inj show ?thesis by blast
    qed
  qed
  have 5: "\<forall>i. components ?sm' i =
          (if i \<in> set (dynamicChildrenIds ?sm') then childrenById ?c' i else None)"
    using comps by (simp add: registerChild_fields addComponent_fields)
  have 6: "\<forall>k' a'. residentComponentsByKey ?sm' k' = Some a' \<longrightarrow>
          a' < n' \<and> (\<forall>i. components ?sm' i \<noteq> Some a')"
  proof (intro allI impI)
    fix k' a'
    assume r: "residentComponentsByKey ?sm' k' = Some a'"
    show "a' < n' \<and> (\<forall>i. components ?sm' i \<noteq> Some a')"
    proof (cases "cid \<in> set (dynamicChildrenIds ?sm)")
      case True
      with r have "residentComponentsByKey ?sm k' = Some a'"
        by (simp add: registerChild_fields addComponent_fields)
      from res[OF this] have "a' < n" and "\<forall>i. components ?sm i \<noteq> Some a'" by simp_all
      with True lo hi show ?thesis
        by (auto simp: registerChild_fields addComponent_fields)
    next
      case False
      then have same: "components ?sm' = components ?sm"
        by (simp add: registerChild_fields addComponent_fields)
      show ?thesis
      proof (cases "residentComponentsByKey ?sm k' = Some a'")
        case True
        from res[OF this] lo hi same show ?thesis by auto
      next
        case old: False
        with r False have "a' = a"
          by (auto simp: registerChild_fields addComponent_fields split: option.splits if_splits)
        with same cbound lo hi show ?thesis by fastforce
      qed
    qed
  qed
  have 7: "\<forall>i k'. componentKeys ?sm' i = Some k' \<longrightarrow> components ?sm' i \<noteq> None"
    using keys
    by (auto simp: registerChild_fields addComponent_fields split: option.splits if_splits)
  have f: "currentStateId ?sm' = currentStateId ?sm" "currentState ?sm' = currentState ?sm"
    "sm_states ?sm' = sm_states ?sm"
    by (simp_all add: registerChild_fields addComponent_fields)
  have 8: "currentStateId ?sm' = None \<longrightarrow> currentState ?sm' = None"
    unfolding f using cur0 .
  have 9: "\<forall>sid. currentStateId ?sm' = Some sid \<longrightarrow>
          currentState ?sm' \<noteq> None \<and> currentState ?sm' = sm_states ?sm' sid"
    unfolding f using cur .
  from 1 2 3 4 5 6 7 8 9 show ?thesis unfolding clip_inv_def by blast
qed

lemma clip_inv_mono: "clip_inv cfg n c \<Longrightarrow> n \<le> n' \<Longrightarrow> clip_inv cfg n' c"
  unfolding clip_inv_def by (meson less_le_trans)

lemma createChild_inv:
  assumes "clip_inv cfg (length h) c" and "createChildFromConfig h c ch = Inr (h', c')"
  shows "clip_inv cfg (length h') c'"
proof -
  from createChild_shape[OF assms(2)] show ?thesis
  proof
    assume "h' = h \<and> c' = c"
    with assms(1) show ?thesis by simp
  next
    assume "length h < length h' \<and>
          (\<exists>b. c' = registerChild c (length h) (childId ch) (key ch) b)"
    then obtain b where lt: "length h < length h'"
      and c': "c' = registerChild c (length h) (childId ch) (key ch) b" by blast
    from registerChild_inv[OF assms(1) le_refl lt] c' show ?thesis by simp
  qed
qed

lemma parseConfig_inv:
  "clip_inv cfg (length h) c \<Longrightarrow> parseConfig h c chs = Inr (h', c') \<Longrightarrow> clip_inv cfg (length h') c'"
proof (induction chs arbitrary: h c)
  case Nil
  then show ?case by simp
next
  case (Cons ch chs)
  from Cons.prems(2) obtain hm cm where
    m: "createChildFromConfig h c ch = Inr (hm, cm)" and r: "parseConfig hm cm chs = Inr (h', c')"
    by (cases "createChildFromConfig h c ch") auto
  from Cons.IH[OF createChild_inv[OF Cons.prems(1) m] r] show ?case .
qed

lemma ComponentClip_new_unfold:
  "ComponentClip_new h cfg =
     parseConfig (h @ [newGameObject 0 0])
       \<lparr>self = length h, childComponentClips = [], clip_key = key cfg,
        stateManager = StateManager_new cfg, childrenById = Map.empty, displayList = []\<rparr>
       (children cfg)"
  by (cases cfg) (simp add: alloc_def)

lemma ComponentClip_new_inv:
  assumes "ComponentClip_new h0 cfg = Inr (h, c)"
  shows "clip_inv cfg (length h) c"
proof -
  let ?c0 = "\<lparr>self = length h0, childComponentClips = [], clip_key = key cfg,
        stateManager = StateManager_new cfg, childrenById = Map.empty, displayList = []\<rparr>"
  have "clip_inv cfg (length (h0 @ [newGameObject 0 0])) ?c0"
    by (simp add: clip_inv_def StateManager_new_fields)
  from parseConfig_inv[OF this assms[unfolded ComponentClip_new_unfold]] show ?thesis .
qed

section \<open>State switches keep the clip well formed\<close>

lemma setupState_length:
  "setupState h sm = Inr h' \<Longrightarrow> length h' = length h"
  "setupState h sm = Inl (e, h') \<Longrightarrow> length h' = length h"
  by (auto simp: setupState_def Let_def split: option.splits sum.splits
           dest!: hide_loop_length show_loop_length)

lemma setState_cases:
  assumes "setState h sm sid force = r"
  obtains (noop) "r = Inr (h, sm)" "currentStateId sm = Some sid \<and> \<not> force \<or> sm_states sm sid = None"
  | (switched) st h' where "sm_states sm sid = Some st" "currentStateId sm \<noteq> Some sid \<or> force"
      "setupState h (sm\<lparr>currentStateId := Some sid, currentState := Some st\<rparr>) = Inr h'"
      "r = Inr (h', sm\<lparr>currentStateId := Some sid, currentState := Some st\<rparr>)"
  | (raised) st h' e where "sm_states sm sid = Some st" "currentStateId sm \<noteq> Some sid \<or> force"
      "setupState h (sm\<lparr>currentStateId := Some sid, currentState := Some st\<rparr>) = Inl (e, h')"
      "r = Inl (e, h', sm\<lparr>currentStateId := Some sid, currentState := Some st\<rparr>)"
proof (cases "currentStateId sm = Some sid \<and> \<not> force")
  case True
  with assms noop show ?thesis by (simp add: setState_def)
next
  case nf: False
  show ?thesis
  proof (cases "sm_states sm sid")
    case None
    with assms nf noop show ?thesis by (simp add: setState_def)
  next
    case (Some st)
    show ?thesis
    proof (cases "setupState h (sm\<lparr>currentStateId := Some sid, currentState := Some st\<rparr>)")
      case (Inl x)
      obtain e h' where x: "x = (e, h')" by (cases x)
      from assms nf Some Inl x raised[of st e h'] show ?thesis
        by (simp add: setState_def Let_def)
    next
      case (Inr h')
      from assms nf Some Inr switched[of st h'] show ?thesis
        by (simp add: setState_def Let_def)
    qed
  qed
qed

lemma clip_inv_current:
  assumes "clip_inv cfg n c" and "sm_states (stateManager c) sid = Some st"
  shows "clip_inv cfg n (c\<lparr>stateManager := (stateManager c)\<lparr>currentStateId := Some sid, currentState := Some st\<rparr>\<rparr>)"
proof -
  let ?sm' = "(stateManager c)\<lparr>currentStateId := Some sid, currentState := Some st\<rparr>"
  let ?c' = "c\<lparr>stateManager := ?sm'\<rparr>"
  have f: "childrenById ?c' = childrenById c"
    "dynamicChildrenIds (stateManager ?c') = dynamicChildrenIds (stateManager c)"
    "sm_states (stateManager ?c') = sm_states (stateManager c)"
    "components (stateManager ?c') = components (stateManager c)"
    "residentComponentsByKey (stateManager ?c') = residentComponentsByKey (stateManager c)"
    "componentKeys (stateManager ?c') = componentKeys (stateManager c)"
    by simp_all
  have g: "currentStateId (stateManager ?c') = Some sid" "currentState (stateManager ?c') = Some st"
    by simp_all
  from assms(1)[unfolded clip_inv_def] assms(2) show ?thesis
    unfolding clip_inv_def f g by (elim conjE, intro conjI) (assumption | simp)+
qed

lemma applyChildParams_length [simp]: "length (applyChildParams h c cid p) = length h"
  by (simp add: applyChildParams_def split: option.splits)

lemma reachable_inv: "reachable cfg h c \<Longrightarrow> clip_inv cfg (length h) c"
proof (induction rule: reachable.induct)
  case (constructed h0 h c)
  then show ?case by (rule ComponentClip_new_inv)
next
  case (state_set h c stateId force h' sm')
  from state_set.hyps(2) show ?case
  proof (cases rule: setState_cases)
    case noop
    with state_set.IH show ?thesis by simp
  next
    case (switched st h2)
    from switched(4) have "h' = h2" "sm' = (stateManager c)\<lparr>currentStateId := Some stateId, currentState := Some st\<rparr>"
      by simp_all
    with clip_inv_current[OF state_set.IH switched(1)] setupState_length(1)[OF switched(3)]
    show ?thesis by simp
  next
    case (raised st h2 e2)
    then show ?thesis by simp
  qed
next
  case (state_raised h c stateId force e h' sm')
  from state_raised.hyps(2) show ?case
  proof (cases rule: setState_cases)
    case noop
    then show ?thesis by simp
  next
    case (switched st h2)
    then show ?thesis by simp
  next
    case (raised st h2 e2)
    from raised(4) have "h' = h2" "sm' = (stateManager c)\<lparr>currentStateId := Some stateId, currentState := Some st\<rparr>"
      by simp_all
    with clip_inv_current[OF state_raised.IH raised(1)] setupState_length(2)[OF raised(3)]
    show ?thesis by simp
  qed
next
  case (params_applied h c cid p)
  then show ?case by simp
next
  case (environment h c h')
  from clip_inv_mono[OF environment.IH environment.hyps(2)] show ?case .
qed

section \<open>What setupState does to the store\<close>

lemma inv_components:
  assumes "clip_inv cfg n c" and "components (stateManager c) i = Some a"
  shows "a < n" and "i \<in> set (dynamicChildrenIds (stateManager c))" and "childrenById c i = Some a"
proof -
  from assms(1)[unfolded clip_inv_def] have
    bound: "\<forall>i a. childrenById c i = Some a \<longrightarrow> a < n"
    and comps: "\<forall>i. components (stateManager c) i =
          (if i \<in> set (dynamicChildrenIds (stateManager c)) then childrenById c i else None)"
    by blast+
  from comps assms(2) show d: "i \<in> set (dynamicChildrenIds (stateManager c))"
    by (metis option.distinct(1))
  with comps assms(2) show b: "childrenById c i = Some a" by metis
  with bound show "a < n" by blast
qed

lemma inv_components_inj:
  assumes "clip_inv cfg n c" and "components (stateManager c) i = Some a"
    and "components (stateManager c) j = Some a"
  shows "i = j"
proof -
  from assms(1)[unfolded clip_inv_def] have
    inj: "\<forall>i j a. childrenById c i = Some a \<longrightarrow> childrenById c j = Some a \<longrightarrow> i = j"
    by blast
  with inv_components(3)[OF assms(1,2)] inv_components(3)[OF assms(1,3)] show ?thesis by blast
qed

lemma inv_resident_not_component:
  assumes "clip_inv cfg n c" and "resident_handle c a"
  shows "components (stateManager c) i \<noteq> Some a"
proof
  assume ci: "components (stateManager c) i = Some a"
  from assms(1)[unfolded clip_inv_def] have
    res: "\<forall>k a. residentComponentsByKey (stateManager c) k = Some a \<longrightarrow>
          a < n \<and> (\<forall>i. components (stateManager c) i \<noteq> Some a)"
    and inj: "\<forall>i j a. childrenById c i = Some a \<longrightarrow> childrenById c j = Some a \<longrightarrow> i = j"
    by blast+
  from assms(2)[unfolded resident_handle_def] show False
  proof
    assume "\<exists>cid. cid \<notin> set (dynamicChildrenIds (stateManager c)) \<and> childrenById c cid = Some a"
    then obtain cid where cid: "cid \<notin> set (dynamicChildrenIds (stateManager c))"
      "childrenById c cid = Some a" by blast
    from inv_components(2,3)[OF assms(1) ci] cid inj show False by blast
  next
    assume "\<exists>k. residentComponentsByKey (stateManager c) k = Some a"
    with res ci show False by blast
  qed
qed

lemma setupState_frame:
  assumes "\<forall>i. components sm i \<noteq> Some a"
  shows "setupState h sm = Inr h' \<Longrightarrow> h' ! a = h ! a"
    and "setupState h sm = Inl (e, h') \<Longrightarrow> h' ! a = h ! a"
proof -
  have fr: "\<And>ids. \<forall>i \<in> set ids. components sm i \<noteq> Some a" using assms by blast
  show "setupState h sm = Inr h' \<Longrightarrow> h' ! a = h ! a"
    by (auto simp: setupState_def Let_def split: option.splits sum.splits
             dest!: hide_loop_frame(1)[OF fr] show_loop_frame(1)[OF fr])
  show "setupState h sm = Inl (e, h') \<Longrightarrow> h' ! a = h ! a"
    by (auto simp: setupState_def Let_def split: option.splits sum.splits
             dest!: hide_loop_frame[OF fr] show_loop_frame(2)[OF fr])
qed

lemma setupState_effect:
  assumes cur: "currentState sm = Some st"
    and ok: "setupState h sm = Inr h'"
    and bound0: "\<forall>i a. components sm i = Some a \<longrightarrow> a < length h"
    and inj0: "\<forall>i j a. components sm i = Some a \<longrightarrow> components sm j = Some a \<longrightarrow> i = j"
  shows "i \<in> set (componentIds st) \<Longrightarrow> components sm i = Some a \<Longrightarrow> map_of (config st) i = Some p
           \<Longrightarrow> h' ! a = setupCommonParams ((h ! a)\<lparr>obj_visible := True\<rparr>) p"
    and "i \<in> set (dynamicChildrenIds sm) \<Longrightarrow> i \<notin> set (componentIds st) \<Longrightarrow> components sm i = Some a
           \<Longrightarrow> h' ! a = (h ! a)\<lparr>obj_visible := False\<rparr>"
proof -
  let ?hide = "difference (dynamicChildrenIds sm) (componentIds st)"
  have bound: "\<And>i a. components sm i = Some a \<Longrightarrow> a < length h" using bound0 by blast
  have inj: "\<And>i j a. components sm i = Some a \<Longrightarrow> components sm j = Some a \<Longrightarrow> i = j"
    using inj0 by blast
  from ok cur obtain h1 where
    h1: "hide_loop h (components sm) ?hide = Inr h1"
    and h': "show_loop h1 (components sm) (config st) (componentIds st) = Inr h'"
    by (auto simp: setupState_def Let_def split: sum.splits)
  have len1: "length h1 = length h" using hide_loop_length(1)[OF h1] .
  {
    assume i: "i \<in> set (componentIds st)" and a: "components sm i = Some a"
      and p: "map_of (config st) i = Some p"
    have "\<forall>j \<in> set ?hide. components sm j \<noteq> Some a"
      using inj[OF a] i by (auto simp: difference_def)
    from hide_loop_frame(1)[OF this h1] have same: "h1 ! a = h ! a" .
    have u: "\<forall>j \<in> set (componentIds st). components sm j = Some a \<longrightarrow> j = i"
      using inj[OF a] by blast
    have "a < length h1" using bound[OF a] len1 by simp
    from show_loop_effect[OF u h' i a this p] same
    show "h' ! a = setupCommonParams ((h ! a)\<lparr>obj_visible := True\<rparr>) p" by simp
  }
  {
    assume i: "i \<in> set (dynamicChildrenIds sm)" "i \<notin> set (componentIds st)"
      and a: "components sm i = Some a"
    have "\<exists>j \<in> set ?hide. components sm j = Some a"
      using i a by (auto simp: difference_def)
    from hide_loop_effect[OF h1 this bound[OF a]]
    have hid: "h1 ! a = (h ! a)\<lparr>obj_visible := False\<rparr>" .
    have "\<forall>j \<in> set (componentIds st). components sm j \<noteq> Some a"
      using inj[OF a] i(2) by blast
    from show_loop_frame(1)[OF this h'] hid
    show "h' ! a = (h ! a)\<lparr>obj_visible := False\<rparr>" by simp
  }
qed

lemma setupState_returns:
  assumes cur: "currentState sm = Some st"
    and dyn: "set (dynamicChildrenIds sm) \<subseteq> dom (components sm)"
    and ids: "set (componentIds st) \<subseteq> set (dynamicChildrenIds sm)"
    and cf: "componentIds st = map fst (config st)"
  shows "\<exists>h'. setupState h sm = Inr h'"
proof -
  let ?hide = "difference (dynamicChildrenIds sm) (componentIds st)"
  have "set ?hide \<subseteq> dom (components sm)" using dyn by (auto simp: difference_def)
  from hide_loop_returns[OF this] obtain h1 where
    h1: "hide_loop h (components sm) ?hide = Inr h1" by blast
  have s1: "set (componentIds st) \<subseteq> dom (components sm)" using dyn ids by blast
  have s2: "set (componentIds st) \<subseteq> dom (map_of (config st))"
    using cf by (simp add: dom_map_of_conv_image_fst)
  from show_loop_returns[OF s1 s2] obtain h' where
    "show_loop h1 (components sm) (config st) (componentIds st) = Inr h'" by blast
  with h1 cur show ?thesis by (simp add: setupState_def Let_def)
qed

lemma reachable_dyn:
  assumes "reachable cfg h c"
  shows "dynamicChildrenIds (stateManager c) = uniq (flatten (state_keys cfg))"
    and "sm_states (stateManager c) = sm_states (StateManager_new cfg)"
  using reachable_inv[OF assms] unfolding clip_inv_def
  by (simp_all add: StateManager_new_fields(1))

lemma reachable_state:
  assumes "reachable cfg h c" and "sm_states (stateManager c) sid = Some st"
  shows "componentIds st = map fst (config st)"
    and "set (componentIds st) \<subseteq> set (dynamicChildrenIds (stateManager c))"
proof -
  from assms reachable_dyn(2)[OF assms(1)]
  have s: "sm_states (StateManager_new cfg) sid = Some st" by simp
  from StateManager_new_state_ids(1)[OF s] show "componentIds st = map fst (config st)" .
  from StateManager_new_state_ids(2)[OF s] reachable_inv[OF assms(1)]
  show "set (componentIds st) \<subseteq> set (dynamicChildrenIds (stateManager c))"
    unfolding clip_inv_def by simp
qed

lemma hide_loop_registered:
  "hide_loop h comps ids = Inr h' \<Longrightarrow> i \<in> set ids \<Longrightarrow> \<exists>a. comps i = Some a"
  by (induction h comps ids rule: hide_loop.induct) (auto split: option.splits)

lemma show_loop_registered:
  "show_loop h comps sc ids = Inr h' \<Longrightarrow> i \<in> set ids
     \<Longrightarrow> (\<exists>a. comps i = Some a) \<and> (\<exists>p. map_of sc i = Some p)"
  by (induction h comps sc ids rule: show_loop.induct) (auto split: option.splits simp: Let_def)

lemma setState_performed:
  assumes st: "sm_states sm stateId = Some st"
    and go: "currentStateId sm \<noteq> Some stateId \<or> force"
    and ok: "setState h sm stateId force = Inr (h', sm')"
  shows "setupState h (sm\<lparr>currentStateId := Some stateId, currentState := Some st\<rparr>) = Inr h'"
    and "sm' = sm\<lparr>currentStateId := Some stateId, currentState := Some st\<rparr>"
proof -
  from ok have "setupState h (sm\<lparr>currentStateId := Some stateId, currentState := Some st\<rparr>) = Inr h'
      \<and> sm' = sm\<lparr>currentStateId := Some stateId, currentState := Some st\<rparr>"
  proof (cases rule: setState_cases)
    case noop
    with go st show ?thesis by auto
  next
    case (switched st2 h2)
    with st show ?thesis by auto
  next
    case (raised st2 h2 e)
    then show ?thesis by auto
  qed
  then show "setupState h (sm\<lparr>currentStateId := Some stateId, currentState := Some st\<rparr>) = Inr h'"
    and "sm' = sm\<lparr>currentStateId := Some stateId, currentState := Some st\<rparr>" by simp_all
qed

section \<open>A new clip has no state\<close>

lemma createChild_current:
  assumes "createChildFromConfig h c ch = Inr (h', c')"
  shows "currentState (stateManager c') = currentState (stateManager c) \<and>
         currentStateId (stateManager c') = currentStateId (stateManager c)"
  using createChild_shape[OF assms]
  by (auto simp: registerChild_fields addComponent_fields)

lemma parseConfig_current:
  "parseConfig h c chs = Inr (h', c') \<Longrightarrow>
     currentState (stateManager c') = currentState (stateManager c) \<and>
     currentStateId (stateManager c') = currentStateId (stateManager c)"
proof (induction chs arbitrary: h c)
  case Nil
  then show ?case by simp
next
  case (Cons ch chs)
  from Cons.prems obtain hm cm where
    m: "createChildFromConfig h c ch = Inr (hm, cm)" and r: "parseConfig hm cm chs = Inr (h', c')"
    by (cases "createChildFromConfig h c ch") auto
  from Cons.IH[OF r] createChild_current[OF m] show ?case by simp
qed

lemma constructed_no_state:
  assumes "ComponentClip_new h0 cfg = Inr (h, c)"
  shows "currentState (stateManager c) = None" and "currentStateId (stateManager c) = None"
  using parseConfig_current[OF assms[unfolded ComponentClip_new_unfold]]
  by (simp_all add: StateManager_new_fields)

lemma scan_ids_component:
  "scan_ids sm k ids = Some a \<Longrightarrow> \<exists>i \<in> set ids. componentKeys sm i = Some k \<and> components sm i = Some a"
  by (induction sm k ids rule: scan_ids.induct) (auto split: if_splits)

section \<open>The small clip, evaluated\<close>

lemmas example_defs = example_config_def example_state_A_def example_state_B_def example_heap_def
  example_clip_def example_sm_A_def example_clip_A_def example_heap_A_def example_heap_moved_def
  no_params_def

lemmas eval_defs = StateManager_new_def State_new_def uniq_def flatten_def difference_def
  TYPE_defs createImageFromConfig_def alloc_def modify_def registerChild_def addComponent_def
  setupCommonParams_def or_default_def own_or_def newGameObject_def
  setState_def setupState_def applyChildParams_def getActiveComponentByKey_def

lemma example_constructed:
  "ComponentClip_new [] example_config = Inr (example_heap, example_clip)"
  by (simp add: example_defs eval_defs numeral_2_eq_2 numeral_3_eq_3)

lemma example_setState_A:
  "setState example_heap (stateManager example_clip) ''A'' False = Inr (example_heap_A, example_sm_A)"
  by (simp add: example_defs eval_defs)

lemma example_reachable: "reachable example_config example_heap example_clip"
  by (rule reachable.constructed[OF example_constructed])

lemma example_reachable_A: "reachable example_config example_heap_A example_clip_A"
  unfolding example_clip_A_def
  by (rule reachable.state_set[OF example_reachable example_setState_A])

lemma example_moved:
  "applyChildParams example_heap_A example_clip_A ''c1'' (no_params\<lparr>cfg_x := Some 99\<rparr>)
     = example_heap_moved"
  by (simp add: example_defs eval_defs)

lemma example_reachable_moved: "reachable example_config example_heap_moved example_clip_A"
  using reachable.params_applied[OF example_reachable_A, of "''c1''" "no_params\<lparr>cfg_x := Some 99\<rparr>"]
  by (simp only: example_moved)

lemma example_unregistered_raises:
  "(case ComponentClip_new [] example_unregistered of
      Inl e \<Rightarrow> False
    | Inr (h, c) \<Rightarrow> setState h (stateManager c) ''A'' False
        = Inl (TypeError, h,
               (stateManager c)\<lparr>currentStateId := Some ''A'',
                 currentState := Some \<lparr>config = [(''ghost'', no_params)], componentIds = [''ghost'']\<rparr>\<rparr>))"
  by (simp add: example_unregistered_def no_params_def eval_defs)

section \<open>The properties\<close>

subsection \<open>Common params\<close>

lemma setupCommonParams_fields:
  "obj_x (setupCommonParams ob p) = or_default (cfg_x p) 0"
  "obj_y (setupCommonParams ob p) = or_default (cfg_y p) 0"
  "obj_scaleX (setupCommonParams ob p) = or_default (cfg_scaleX p) 1"
  "obj_scaleY (setupCommonParams ob p) = or_default (cfg_scaleY p) 1"
  "obj_angle (setupCommonParams ob p) = or_default (cfg_angle p) 0"
  "obj_alpha (setupCommonParams ob p) = own_or (cfg_alpha p) 1"
  "obj_visible (setupCommonParams ob p) = obj_visible ob"
  "obj_mask (setupCommonParams ob p) = obj_mask ob"
  by (simp_all add: setupCommonParams_def)

lemma or_default_zero: "or_default v 0 = (case v of None \<Rightarrow> 0 | Some n \<Rightarrow> n)"
  by (simp add: or_default_def split: option.splits)

lemma or_default_nonzero:
  "v \<noteq> Some 0 \<Longrightarrow> or_default v d = (case v of None \<Rightarrow> d | Some n \<Rightarrow> n)"
  by (simp add: or_default_def split: option.splits)

text \<open>
  C1. Applying a partial transform sets \<open>x\<close>, \<open>y\<close>, \<open>angle\<close> to the record's value or 0,
  \<open>scaleX\<close>, \<open>scaleY\<close> to the record's value or 1, \<open>alpha\<close> to the record's value
  when the key is present and else 1; in particular a supplied scale of 0 is kept.
  The source does not keep it: the scales are tested with \<^verbatim>\<open>||\<close>, so on the record
  \<^verbatim>\<open>{scaleX: 0, scaleY: 0, alpha: 0}\<close> both scales become 1, while \<open>alpha\<close>, tested
  with \<^verbatim>\<open>hasOwnProperty\<close>, stays 0.
\<close>

theorem setupCommonParams_zero_scale:
  "obj_scaleX (setupCommonParams (newGameObject 0 0)
       (no_params\<lparr>cfg_scaleX := Some 0, cfg_scaleY := Some 0, cfg_alpha := Some 0\<rparr>)) = 1
   \<and> obj_scaleY (setupCommonParams (newGameObject 0 0)
       (no_params\<lparr>cfg_scaleX := Some 0, cfg_scaleY := Some 0, cfg_alpha := Some 0\<rparr>)) = 1
   \<and> obj_alpha (setupCommonParams (newGameObject 0 0)
       (no_params\<lparr>cfg_scaleX := Some 0, cfg_scaleY := Some 0, cfg_alpha := Some 0\<rparr>)) = 0"
  by (simp add: setupCommonParams_def or_default_def own_or_def newGameObject_def no_params_def)

subsection \<open>State switches\<close>

text \<open>
  C2. After \<open>setState\<close> has switched to a declared state \<open>S\<close> and returned, every child
  id of \<open>S\<close> has a stored component that is visible and carries the params that
  \<open>setupCommonParams\<close> computes from \<open>S\<close>'s config for that id, and every other
  dynamic child id has a stored component that differs from what it was only in being
  invisible. The switch is performed when \<open>S\<close> is not the current state or \<open>force\<close> is
  set.
\<close>

theorem setState_switch:
  assumes r: "reachable cfg h c"
    and st: "sm_states (stateManager c) stateId = Some st"
    and go: "currentStateId (stateManager c) \<noteq> Some stateId \<or> force"
    and ok: "setState h (stateManager c) stateId force = Inr (h', sm')"
  shows "currentStateId sm' = Some stateId \<and> currentState sm' = Some st \<and>
     (\<forall>i \<in> set (componentIds st). \<exists>a p. components (stateManager c) i = Some a \<and>
         map_of (config st) i = Some p \<and> a < length h \<and>
         h' ! a = setupCommonParams ((h ! a)\<lparr>obj_visible := True\<rparr>) p \<and> obj_visible (h' ! a)) \<and>
     (\<forall>i \<in> set (dynamicChildrenIds (stateManager c)) - set (componentIds st).
         \<exists>a. components (stateManager c) i = Some a \<and> a < length h \<and>
         h' ! a = (h ! a)\<lparr>obj_visible := False\<rparr>)"
proof -
  let ?sm = "stateManager c"
  let ?sm1 = "?sm\<lparr>currentStateId := Some stateId, currentState := Some st\<rparr>"
  note inv = reachable_inv[OF r]
  note su = setState_performed(1)[OF st go ok] and sm' = setState_performed(2)[OF st go ok]
  have cur: "currentState ?sm1 = Some st" by simp
  have bound: "\<forall>i a. components ?sm1 i = Some a \<longrightarrow> a < length h"
    using inv_components(1)[OF inv] by simp
  have inj: "\<forall>i j a. components ?sm1 i = Some a \<longrightarrow> components ?sm1 j = Some a \<longrightarrow> i = j"
    using inv_components_inj[OF inv] by simp
  note eff = setupState_effect[OF cur su bound inj]
  from su cur obtain h1 where
    h1: "hide_loop h (components ?sm) (difference (dynamicChildrenIds ?sm) (componentIds st)) = Inr h1"
    and sh: "show_loop h1 (components ?sm) (config st) (componentIds st) = Inr h'"
    by (auto simp: setupState_def Let_def split: sum.splits)
  have shown: "\<forall>i \<in> set (componentIds st). \<exists>a p. components ?sm i = Some a \<and>
         map_of (config st) i = Some p \<and> a < length h \<and>
         h' ! a = setupCommonParams ((h ! a)\<lparr>obj_visible := True\<rparr>) p \<and> obj_visible (h' ! a)"
  proof
    fix i assume i: "i \<in> set (componentIds st)"
    from show_loop_registered[OF sh i] obtain a p where
      a: "components ?sm i = Some a" and p: "map_of (config st) i = Some p" by blast
    from a have a1: "components ?sm1 i = Some a" by simp
    from eff(1)[OF i a1 p]
    have e: "h' ! a = setupCommonParams ((h ! a)\<lparr>obj_visible := True\<rparr>) p" .
    then have "obj_visible (h' ! a)" by (simp add: setupCommonParams_def)
    with a p e bound a1 show "\<exists>a p. components ?sm i = Some a \<and>
         map_of (config st) i = Some p \<and> a < length h \<and>
         h' ! a = setupCommonParams ((h ! a)\<lparr>obj_visible := True\<rparr>) p \<and> obj_visible (h' ! a)"
      by blast
  qed
  have hidden: "\<forall>i \<in> set (dynamicChildrenIds ?sm) - set (componentIds st).
         \<exists>a. components ?sm i = Some a \<and> a < length h \<and> h' ! a = (h ! a)\<lparr>obj_visible := False\<rparr>"
  proof
    fix i assume i: "i \<in> set (dynamicChildrenIds ?sm) - set (componentIds st)"
    then have "i \<in> set (difference (dynamicChildrenIds ?sm) (componentIds st))"
      by (simp add: difference_def)
    from hide_loop_registered[OF h1 this] obtain a where a: "components ?sm i = Some a" by blast
    from a have a1: "components ?sm1 i = Some a" by simp
    from i have "i \<in> set (dynamicChildrenIds ?sm1)" "i \<notin> set (componentIds st)" by simp_all
    from eff(2)[OF this a1] a a1 bound
    show "\<exists>a. components ?sm i = Some a \<and> a < length h \<and> h' ! a = (h ! a)\<lparr>obj_visible := False\<rparr>"
      by blast
  qed
  from sm' shown hidden show ?thesis by simp
qed

theorem setState_switch_witness:
  "reachable example_config example_heap example_clip \<and>
   sm_states (stateManager example_clip) ''A'' = Some example_state_A \<and>
   currentStateId (stateManager example_clip) \<noteq> Some ''A'' \<and>
   setState example_heap (stateManager example_clip) ''A'' False = Inr (example_heap_A, example_sm_A) \<and>
   currentStateId example_sm_A = Some ''A'' \<and>
   components (stateManager example_clip) ''c1'' = Some 1 \<and>
   obj_visible (example_heap_A ! 1) \<and> obj_x (example_heap_A ! 1) = 10 \<and>
   obj_y (example_heap_A ! 1) = 0 \<and>
   components (stateManager example_clip) ''c2'' = Some 2 \<and>
   example_heap_A ! 2 = (example_heap ! 2)\<lparr>obj_visible := False\<rparr>"
proof -
  have s: "sm_states (stateManager example_clip) ''A'' = Some example_state_A"
    by (simp add: example_clip_def)
  have g: "currentStateId (stateManager example_clip) \<noteq> Some ''A'' \<or> False"
    by (simp add: example_clip_def)
  from setState_switch[OF example_reachable s g example_setState_A]
    example_reachable s g example_setState_A
  show ?thesis
    by (simp add: example_defs eval_defs)
qed

subsection \<open>Classification\<close>

text \<open>
  C3. \<open>dynamicChildrenIds\<close> is the union of the declared states' key lists, without
  duplicates and in order of first appearance. A registered child is stored in the
  dynamic components dictionary if and only if its id is a key of some declared state's
  config; a handle stored under a resident key is never a dynamic component; and
  \<open>addComponent\<close> stores a component under its id exactly when that id is such a key.
\<close>

theorem classification:
  assumes r: "reachable cfg h c"
  shows "dynamicChildrenIds (stateManager c) = first_appearance (concat (state_keys cfg)) \<and>
     distinct (dynamicChildrenIds (stateManager c)) \<and>
     set (dynamicChildrenIds (stateManager c)) = (\<Union>ks \<in> set (state_keys cfg). set ks) \<and>
     (\<forall>cid a. childrenById c cid = Some a \<longrightarrow>
        components (stateManager c) cid =
          (if \<exists>ks \<in> set (state_keys cfg). cid \<in> set ks then Some a else None)) \<and>
     (\<forall>cid a. components (stateManager c) cid = Some a \<longrightarrow> childrenById c cid = Some a) \<and>
     (\<forall>k a. residentComponentsByKey (stateManager c) k = Some a \<longrightarrow>
        (\<forall>cid. components (stateManager c) cid \<noteq> Some a)) \<and>
     (\<forall>a cid k. components (addComponent (stateManager c) a cid k) cid =
        (if \<exists>ks \<in> set (state_keys cfg). cid \<in> set ks then Some a
         else components (stateManager c) cid))"
proof -
  let ?sm = "stateManager c"
  have d: "dynamicChildrenIds ?sm = uniq (flatten (state_keys cfg))"
    using reachable_dyn(1)[OF r] .
  have 1: "dynamicChildrenIds ?sm = first_appearance (concat (state_keys cfg))"
    by (simp add: d uniq_first_appearance flatten_def)
  have 2: "distinct (dynamicChildrenIds ?sm)" by (simp add: d)
  have 3: "set (dynamicChildrenIds ?sm) = (\<Union>ks \<in> set (state_keys cfg). set ks)"
    by (simp add: d flatten_def)
  have mem: "\<And>cid. (cid \<in> set (dynamicChildrenIds ?sm)) = (\<exists>ks \<in> set (state_keys cfg). cid \<in> set ks)"
    unfolding 3 by blast
  from reachable_inv[OF r, unfolded clip_inv_def] have
    comps: "\<forall>i. components ?sm i =
          (if i \<in> set (dynamicChildrenIds ?sm) then childrenById c i else None)"
    and res: "\<forall>k a. residentComponentsByKey ?sm k = Some a \<longrightarrow>
          a < length h \<and> (\<forall>i. components ?sm i \<noteq> Some a)"
    by blast+
  have 4: "\<forall>cid a. childrenById c cid = Some a \<longrightarrow>
        components ?sm cid = (if \<exists>ks \<in> set (state_keys cfg). cid \<in> set ks then Some a else None)"
    using comps mem by simp
  have 5: "\<forall>cid a. components ?sm cid = Some a \<longrightarrow> childrenById c cid = Some a"
    using inv_components(3)[OF reachable_inv[OF r]] by blast
  have 6: "\<forall>k a. residentComponentsByKey ?sm k = Some a \<longrightarrow> (\<forall>cid. components ?sm cid \<noteq> Some a)"
    using res by blast
  have 7: "\<forall>a cid k. components (addComponent ?sm a cid k) cid =
        (if \<exists>ks \<in> set (state_keys cfg). cid \<in> set ks then Some a else components ?sm cid)"
    using mem by (simp add: addComponent_fields)
  from 1 2 3 4 5 6 7 show ?thesis by blast
qed

theorem classification_witness:
  "reachable example_config example_heap example_clip \<and>
   dynamicChildrenIds (stateManager example_clip) = [''c1'', ''c2''] \<and>
   childrenById example_clip ''c1'' = Some 1 \<and>
   components (stateManager example_clip) ''c1'' = Some 1 \<and>
   childrenById example_clip ''c3'' = Some 3 \<and>
   components (stateManager example_clip) ''c3'' = None \<and>
   residentComponentsByKey (stateManager example_clip) ''btn'' = Some 3"
  using classification[OF example_reachable] example_reachable
  by (simp add: example_clip_def)

text \<open>
  C4. For a state id that the config does not declare, \<open>setState\<close> returns, whatever
  \<open>force\<close> is, and leaves the state manager and the whole store as they were.
\<close>

theorem setState_unknown:
  assumes "reachable cfg h c" and "stateId \<notin> fst ` set (states cfg)"
  shows "setState h (stateManager c) stateId force = Inr (h, stateManager c)"
proof -
  from assms(2) have "sm_states (StateManager_new cfg) stateId = None"
    by (simp add: StateManager_new_declared)
  with reachable_dyn(2)[OF assms(1)] have "sm_states (stateManager c) stateId = None" by simp
  then show ?thesis by (simp add: setState_def)
qed

theorem setState_unknown_witness:
  "reachable example_config example_heap_A example_clip_A \<and>
   ''nonexistent'' \<notin> fst ` set (states example_config) \<and>
   setState example_heap_A (stateManager example_clip_A) ''nonexistent'' True
     = Inr (example_heap_A, stateManager example_clip_A) \<and>
   currentStateId (stateManager example_clip_A) = Some ''A''"
proof -
  have n: "''nonexistent'' \<notin> fst ` set (states example_config)"
    by (simp add: example_config_def)
  from setState_unknown[OF example_reachable_A n, of True] example_reachable_A n
  show ?thesis by (simp add: example_clip_A_def example_sm_A_def)
qed

text \<open>
  C5. A call of \<open>setState\<close>, to any state id and with any \<open>force\<close>, whether it returns
  or raises, leaves the object of every resident child as it was, in all its fields.
\<close>

theorem resident_untouched:
  assumes r: "reachable cfg h c" and res: "resident_handle c a"
  shows "(\<forall>h' sm'. setState h (stateManager c) stateId force = Inr (h', sm') \<longrightarrow> h' ! a = h ! a) \<and>
         (\<forall>e h' sm'. setState h (stateManager c) stateId force = Inl (e, h', sm') \<longrightarrow> h' ! a = h ! a)"
proof -
  have nc: "\<And>sm1. components sm1 = components (stateManager c) \<Longrightarrow> \<forall>i. components sm1 i \<noteq> Some a"
    using inv_resident_not_component[OF reachable_inv[OF r] res] by simp
  {
    fix x assume x: "setState h (stateManager c) stateId force = x"
    then have "(\<forall>h' sm'. x = Inr (h', sm') \<longrightarrow> h' ! a = h ! a) \<and>
               (\<forall>e h' sm'. x = Inl (e, h', sm') \<longrightarrow> h' ! a = h ! a)"
    proof (cases rule: setState_cases)
      case noop
      then show ?thesis by simp
    next
      case (switched st h2)
      have "\<forall>i. components ((stateManager c)\<lparr>currentStateId := Some stateId, currentState := Some st\<rparr>) i \<noteq> Some a"
        by (rule nc) simp
      from setupState_frame(1)[OF this switched(3)] switched(4) show ?thesis by simp
    next
      case (raised st h2 e2)
      have "\<forall>i. components ((stateManager c)\<lparr>currentStateId := Some stateId, currentState := Some st\<rparr>) i \<noteq> Some a"
        by (rule nc) simp
      from setupState_frame(2)[OF this raised(3)] raised(4) show ?thesis by simp
    qed
  }
  then show ?thesis by blast
qed

theorem resident_untouched_witness:
  "reachable example_config example_heap example_clip \<and>
   resident_handle example_clip 3 \<and>
   ''c3'' \<notin> set (dynamicChildrenIds (stateManager example_clip)) \<and>
   childrenById example_clip ''c3'' = Some 3 \<and>
   setState example_heap (stateManager example_clip) ''A'' False = Inr (example_heap_A, example_sm_A) \<and>
   example_heap_A ! 3 = example_heap ! 3"
proof -
  have c3: "''c3'' \<notin> set (dynamicChildrenIds (stateManager example_clip))"
    "childrenById example_clip ''c3'' = Some 3"
    by (simp_all add: example_clip_def)
  then have res: "resident_handle example_clip 3"
    unfolding resident_handle_def by blast
  from resident_untouched[OF example_reachable res, of "''A''" False] example_setState_A
  have "example_heap_A ! 3 = example_heap ! 3" by simp
  with example_reachable res c3 example_setState_A show ?thesis by simp
qed

text \<open>
  C6. With \<open>force\<close> unset, \<open>setState\<close> to the state that is already current changes
  nothing, so a second \<open>setState\<close> to the same id right after a first one that
  returned gives the same store and state manager. With \<open>force\<close> set, \<open>setState\<close>
  to the current state runs \<open>setupState\<close> again on the unchanged state manager.
\<close>

theorem setState_reentry:
  assumes r: "reachable cfg h c"
  shows "(currentStateId (stateManager c) = Some stateId \<longrightarrow>
            setState h (stateManager c) stateId False = Inr (h, stateManager c)) \<and>
         (\<forall>h' sm'. setState h (stateManager c) stateId False = Inr (h', sm') \<longrightarrow>
            setState h' sm' stateId False = Inr (h', sm')) \<and>
         (currentStateId (stateManager c) = Some stateId \<longrightarrow>
            setState h (stateManager c) stateId True =
              (case setupState h (stateManager c) of
                 Inl (e, h1) \<Rightarrow> Inl (e, h1, stateManager c)
               | Inr h1 \<Rightarrow> Inr (h1, stateManager c)))"
proof -
  let ?sm = "stateManager c"
  have 1: "currentStateId ?sm = Some stateId \<longrightarrow> setState h ?sm stateId False = Inr (h, ?sm)"
    by (simp add: setState_def)
  have 2: "\<forall>h' sm'. setState h ?sm stateId False = Inr (h', sm') \<longrightarrow>
            setState h' sm' stateId False = Inr (h', sm')"
  proof (intro allI impI)
    fix h' sm' assume x: "setState h ?sm stateId False = Inr (h', sm')"
    then show "setState h' sm' stateId False = Inr (h', sm')"
    proof (cases rule: setState_cases)
      case noop
      then show ?thesis by (auto simp: setState_def)
    next
      case (switched st h2)
      then show ?thesis by (simp add: setState_def)
    next
      case (raised st h2 e2)
      then show ?thesis by simp
    qed
  qed
  from reachable_inv[OF r, unfolded clip_inv_def] have
    cur: "\<forall>sid. currentStateId ?sm = Some sid \<longrightarrow>
          currentState ?sm \<noteq> None \<and> currentState ?sm = sm_states ?sm sid"
    by blast
  have 3: "currentStateId ?sm = Some stateId \<longrightarrow>
            setState h ?sm stateId True =
              (case setupState h ?sm of
                 Inl (e, h1) \<Rightarrow> Inl (e, h1, ?sm)
               | Inr h1 \<Rightarrow> Inr (h1, ?sm))"
  proof
    assume a: "currentStateId ?sm = Some stateId"
    with cur obtain st where cs: "currentState ?sm = Some st" and s: "sm_states ?sm stateId = Some st"
      by (metis not_None_eq)
    from a cs have same: "?sm\<lparr>currentStateId := Some stateId, currentState := Some st\<rparr> = ?sm"
      by simp
    from s show "setState h ?sm stateId True =
              (case setupState h ?sm of
                 Inl (e, h1) \<Rightarrow> Inl (e, h1, ?sm)
               | Inr h1 \<Rightarrow> Inr (h1, ?sm))"
      by (simp add: setState_def Let_def same)
  qed
  from 1 2 3 show ?thesis by blast
qed

theorem setState_reentry_witness:
  "reachable example_config example_heap_moved example_clip_A \<and>
   currentStateId (stateManager example_clip_A) = Some ''A'' \<and>
   sm_states (stateManager example_clip_A) ''A'' = Some example_state_A \<and>
   setState example_heap_moved (stateManager example_clip_A) ''A'' False
     = Inr (example_heap_moved, stateManager example_clip_A) \<and>
   obj_x (example_heap_moved ! 1) = 99 \<and>
   setState example_heap_moved (stateManager example_clip_A) ''A'' True
     = Inr (example_heap_A, stateManager example_clip_A) \<and>
   obj_x (example_heap_A ! 1) = 10"
proof -
  have a: "currentStateId (stateManager example_clip_A) = Some ''A''"
    and s: "sm_states (stateManager example_clip_A) ''A'' = Some example_state_A"
    by (simp_all add: example_clip_A_def example_sm_A_def example_clip_def)
  have su: "setupState example_heap_moved (stateManager example_clip_A) = Inr example_heap_A"
    by (simp add: example_defs eval_defs)
  note t = setState_reentry[OF example_reachable_moved, of "''A''"]
  from t a have 1: "setState example_heap_moved (stateManager example_clip_A) ''A'' False
     = Inr (example_heap_moved, stateManager example_clip_A)" by blast
  from t a have "setState example_heap_moved (stateManager example_clip_A) ''A'' True =
              (case setupState example_heap_moved (stateManager example_clip_A) of
                 Inl (e, h1) \<Rightarrow> Inl (e, h1, stateManager example_clip_A)
               | Inr h1 \<Rightarrow> Inr (h1, stateManager example_clip_A))" by blast
  with su have 2: "setState example_heap_moved (stateManager example_clip_A) ''A'' True
     = Inr (example_heap_A, stateManager example_clip_A)" by simp
  have 3: "obj_x (example_heap_moved ! 1) = 99" "obj_x (example_heap_A ! 1) = 10"
    by (simp_all add: example_heap_moved_def example_heap_A_def newGameObject_def)
  from example_reachable_moved a s 1 2 3 show ?thesis by simp
qed

subsection \<open>Lookup by key\<close>

text \<open>
  C7. A key found in the resident-by-key dictionary is answered from there, whatever
  the current state and the keys of its dynamic children are.
\<close>

theorem resident_key_first:
  assumes "residentComponentsByKey sm k = Some r"
  shows "getActiveComponentByKey sm k = Some r"
  using assms by (simp add: getActiveComponentByKey_def)

theorem resident_key_first_witness:
  "residentComponentsByKey example_sm_A ''btn'' = Some 3 \<and>
   currentState example_sm_A = Some example_state_A \<and>
   componentIds example_state_A = [''c1''] \<and>
   componentKeys example_sm_A ''c1'' = Some ''btn'' \<and>
   components example_sm_A ''c1'' = Some 1 \<and>
   getActiveComponentByKey example_sm_A ''btn'' = Some 3"
proof -
  have r: "residentComponentsByKey example_sm_A ''btn'' = Some 3"
    by (simp add: example_sm_A_def example_clip_def)
  from resident_key_first[OF r] r show ?thesis
    by (simp add: example_sm_A_def example_clip_def example_state_A_def)
qed

text \<open>
  C8. A newly constructed clip has no current state. While there is none, a lookup
  answers exactly what the resident-by-key dictionary holds: nothing for a key that only
  dynamic children have, the stored handle for a resident key; and a resident key is
  answered the same way in every state.
\<close>

theorem lookup_without_state:
  "(ComponentClip_new h0 cfg = Inr (h, c) \<longrightarrow>
      currentState (stateManager c) = None \<and>
      getActiveComponentByKey (stateManager c) k = residentComponentsByKey (stateManager c) k) \<and>
   (currentState sm = None \<longrightarrow>
      getActiveComponentByKey sm k = residentComponentsByKey sm k) \<and>
   (residentComponentsByKey sm k = Some a \<longrightarrow> getActiveComponentByKey sm k = Some a)"
proof -
  have 2: "\<And>sm. currentState sm = None \<Longrightarrow>
      getActiveComponentByKey sm k = residentComponentsByKey sm k"
    by (simp add: getActiveComponentByKey_def split: option.splits)
  have 3: "residentComponentsByKey sm k = Some a \<longrightarrow> getActiveComponentByKey sm k = Some a"
    by (simp add: getActiveComponentByKey_def)
  from constructed_no_state(1) 2 3 show ?thesis by blast
qed

theorem lookup_without_state_witness:
  "ComponentClip_new [] example_config = Inr (example_heap, example_clip) \<and>
   currentState (stateManager example_clip) = None \<and>
   componentKeys (stateManager example_clip) ''c2'' = Some ''lbl'' \<and>
   residentComponentsByKey (stateManager example_clip) ''lbl'' = None \<and>
   getActiveComponentByKey (stateManager example_clip) ''lbl'' = None \<and>
   residentComponentsByKey (stateManager example_clip) ''btn'' = Some 3 \<and>
   getActiveComponentByKey (stateManager example_clip) ''btn'' = Some 3"
proof -
  have k: "componentKeys (stateManager example_clip) ''c2'' = Some ''lbl''"
    "residentComponentsByKey (stateManager example_clip) ''lbl'' = None"
    "residentComponentsByKey (stateManager example_clip) ''btn'' = Some 3"
    by (simp_all add: example_clip_def)
  from lookup_without_state[of "[]" example_config example_heap example_clip "''lbl''"
      "stateManager example_clip" 0] example_constructed k(2)
  have 1: "currentState (stateManager example_clip) = None"
    "getActiveComponentByKey (stateManager example_clip) ''lbl'' = None" by simp_all
  from lookup_without_state[of "[]" example_config example_heap example_clip "''btn''"
      "stateManager example_clip" 3] k(3)
  have 2: "getActiveComponentByKey (stateManager example_clip) ''btn'' = Some 3" by simp
  from example_constructed k 1 2 show ?thesis by simp
qed

subsection \<open>No errors\<close>

text \<open>
  C9. When every dynamic child id has a stored component, \<open>setState\<close> returns for
  every state id and every \<open>force\<close>, and a lookup by any key answers nothing or an
  allocated object.
\<close>

theorem never_raises:
  assumes r: "reachable cfg h c"
    and reg: "set (dynamicChildrenIds (stateManager c)) \<subseteq> dom (components (stateManager c))"
  shows "(\<exists>h' sm'. setState h (stateManager c) stateId force = Inr (h', sm')) \<and>
         (getActiveComponentByKey (stateManager c) k = None \<or>
          (\<exists>a. getActiveComponentByKey (stateManager c) k = Some a \<and> a < length h))"
proof -
  let ?sm = "stateManager c"
  note inv = reachable_inv[OF r]
  have 1: "\<exists>h' sm'. setState h ?sm stateId force = Inr (h', sm')"
  proof (cases "sm_states ?sm stateId")
    case None
    then show ?thesis by (simp add: setState_def)
  next
    case (Some st)
    let ?sm1 = "?sm\<lparr>currentStateId := Some stateId, currentState := Some st\<rparr>"
    have "\<exists>h'. setupState h ?sm1 = Inr h'"
    proof (rule setupState_returns)
      show "currentState ?sm1 = Some st" by simp
      show "set (dynamicChildrenIds ?sm1) \<subseteq> dom (components ?sm1)" using reg by simp
      show "set (componentIds st) \<subseteq> set (dynamicChildrenIds ?sm1)"
        using reachable_state(2)[OF r Some] by simp
      show "componentIds st = map fst (config st)" using reachable_state(1)[OF r Some] .
    qed
    then obtain h' where "setupState h ?sm1 = Inr h'" by blast
    with Some show ?thesis by (simp add: setState_def Let_def)
  qed
  have 2: "getActiveComponentByKey ?sm k = None \<or>
          (\<exists>a. getActiveComponentByKey ?sm k = Some a \<and> a < length h)"
  proof (cases "getActiveComponentByKey ?sm k")
    case None
    then show ?thesis by simp
  next
    case (Some a)
    have "a < length h"
    proof (cases "residentComponentsByKey ?sm k")
      case None
      with Some have "\<exists>ids. scan_ids ?sm k ids = Some a"
        by (auto simp: getActiveComponentByKey_def split: option.splits)
      then obtain ids where "scan_ids ?sm k ids = Some a" by blast
      from scan_ids_component[OF this] inv_components(1)[OF inv] show ?thesis by blast
    next
      case (Some b)
      with \<open>getActiveComponentByKey ?sm k = Some a\<close> have "b = a"
        by (simp add: getActiveComponentByKey_def)
      with Some inv[unfolded clip_inv_def] show ?thesis by blast
    qed
    with Some show ?thesis by simp
  qed
  from 1 2 show ?thesis by blast
qed

theorem never_raises_witness:
  "reachable example_config example_heap example_clip \<and>
   set (dynamicChildrenIds (stateManager example_clip)) \<subseteq> dom (components (stateManager example_clip)) \<and>
   setState example_heap (stateManager example_clip) ''A'' False = Inr (example_heap_A, example_sm_A) \<and>
   getActiveComponentByKey (stateManager example_clip) ''btn'' = Some 3 \<and>
   getActiveComponentByKey (stateManager example_clip) ''lbl'' = None"
proof -
  have reg: "set (dynamicChildrenIds (stateManager example_clip))
      \<subseteq> dom (components (stateManager example_clip))"
    by (simp add: example_clip_def)
  from never_raises[OF example_reachable reg, of "''A''" False "''btn''"]
  have "\<exists>h' sm'. setState example_heap (stateManager example_clip) ''A'' False = Inr (h', sm')"
    by blast
  with example_reachable reg example_setState_A show ?thesis
    by (simp add: example_clip_def getActiveComponentByKey_def)
qed

subsection \<open>applyChildParams\<close>

text \<open>
  C10. For a child id that the clip has not recorded, \<open>applyChildParams\<close> leaves the
  store as it is. For a recorded id it replaces that child's object by
  \<open>setupCommonParams\<close> of it and changes no other object; visibility and the current
  state play no part.
\<close>

theorem applyChildParams_effect:
  assumes r: "reachable cfg h c"
  shows "(childrenById c cid = None \<longrightarrow> applyChildParams h c cid p = h) \<and>
         (\<forall>a. childrenById c cid = Some a \<longrightarrow>
            a < length h \<and>
            applyChildParams h c cid p = h[a := setupCommonParams (h ! a) p] \<and>
            applyChildParams h c cid p ! a = setupCommonParams (h ! a) p \<and>
            obj_visible (applyChildParams h c cid p ! a) = obj_visible (h ! a))"
proof -
  from reachable_inv[OF r, unfolded clip_inv_def] have
    bound: "\<forall>i a. childrenById c i = Some a \<longrightarrow> a < length h" by blast
  have 1: "childrenById c cid = None \<longrightarrow> applyChildParams h c cid p = h"
    by (simp add: applyChildParams_def)
  have 2: "\<forall>a. childrenById c cid = Some a \<longrightarrow>
            a < length h \<and>
            applyChildParams h c cid p = h[a := setupCommonParams (h ! a) p] \<and>
            applyChildParams h c cid p ! a = setupCommonParams (h ! a) p \<and>
            obj_visible (applyChildParams h c cid p ! a) = obj_visible (h ! a)"
    using bound by (auto simp: applyChildParams_def modify_def setupCommonParams_def)
  from 1 2 show ?thesis by blast
qed

theorem applyChildParams_effect_witness:
  "reachable example_config example_heap_A example_clip_A \<and>
   childrenById example_clip_A ''zz'' = None \<and>
   applyChildParams example_heap_A example_clip_A ''zz'' (no_params\<lparr>cfg_x := Some 5\<rparr>) = example_heap_A \<and>
   childrenById example_clip_A ''c2'' = Some 2 \<and>
   \<not> obj_visible (example_heap_A ! 2) \<and>
   obj_x (applyChildParams example_heap_A example_clip_A ''c2''
            (no_params\<lparr>cfg_x := Some 5, cfg_alpha := Some (1 / 2)\<rparr>) ! 2) = 5 \<and>
   obj_alpha (applyChildParams example_heap_A example_clip_A ''c2''
            (no_params\<lparr>cfg_x := Some 5, cfg_alpha := Some (1 / 2)\<rparr>) ! 2) = 1 / 2 \<and>
   \<not> obj_visible (applyChildParams example_heap_A example_clip_A ''c2''
            (no_params\<lparr>cfg_x := Some 5, cfg_alpha := Some (1 / 2)\<rparr>) ! 2)"
proof -
  have z: "childrenById example_clip_A ''zz'' = None" and c2: "childrenById example_clip_A ''c2'' = Some 2"
    by (simp_all add: example_clip_A_def example_clip_def)
  have v: "\<not> obj_visible (example_heap_A ! 2)"
    by (simp add: example_heap_A_def newGameObject_def)
  from applyChildParams_effect[OF example_reachable_A, of "''zz''" "no_params\<lparr>cfg_x := Some 5\<rparr>"] z
  have 1: "applyChildParams example_heap_A example_clip_A ''zz'' (no_params\<lparr>cfg_x := Some 5\<rparr>) = example_heap_A"
    by blast
  let ?p = "no_params\<lparr>cfg_x := Some 5, cfg_alpha := Some (1 / 2)\<rparr>"
  from applyChildParams_effect[OF example_reachable_A, of "''c2''" ?p] c2
  have 2: "applyChildParams example_heap_A example_clip_A ''c2'' ?p ! 2
             = setupCommonParams (example_heap_A ! 2) ?p"
    and 3: "obj_visible (applyChildParams example_heap_A example_clip_A ''c2'' ?p ! 2)
             = obj_visible (example_heap_A ! 2)"
    by blast+
  have 4: "obj_x (setupCommonParams (example_heap_A ! 2) ?p) = 5"
    "obj_alpha (setupCommonParams (example_heap_A ! 2) ?p) = 1 / 2"
    by (simp_all add: setupCommonParams_def or_default_def own_or_def no_params_def)
  from example_reachable_A z c2 v 1 2 3 4 show ?thesis by simp
qed

end
